theory Spec2Isabelle
  imports
    Main
    "HOL-Library.Word"
    "HOL-Library.Char_ord"
    "HOL-Library.List_Lexorder"
    "HOL-Library.AList"
    "HOL-Library.Multiset"
begin

section \<open>Strings\<close>

text \<open>
  A Go string is a sequence of bytes, here a \<^typ>\<open>string\<close> (a list of 8-bit characters).
  Go compares strings byte by byte, a proper prefix being smaller: this is the order that
  the theories \<open>Char_ord\<close> and \<open>List_Lexorder\<close> of the library give to \<^typ>\<open>string\<close>.
\<close>

definition HasPrefix :: "string \<Rightarrow> string \<Rightarrow> bool" where
  "HasPrefix s pre = (take (length pre) s = pre)"

text \<open>\<open>strings.LastIndex\<close>: the index of the last occurrence of \<open>sep\<close> in \<open>s\<close>, or \<open>-1\<close>.\<close>

definition LastIndex :: "string \<Rightarrow> string \<Rightarrow> int" where
  "LastIndex s sep =
     (case filter (\<lambda>i. HasPrefix (drop i s) sep) (rev [0..<Suc (length s)]) of
        [] \<Rightarrow> - 1
      | i # _ \<Rightarrow> int i)"

text \<open>
  \<open>strings.TrimSpace\<close> removes the leading and trailing white space, as Unicode defines it,
  of a UTF-8 string. The white-space code points are U+0009 to U+000D, U+0020, U+0085, U+00A0,
  U+1680, U+2000 to U+200A, U+2028, U+2029, U+202F, U+205F and U+3000; \<open>spaceRunes\<close> lists
  their UTF-8 encodings. A string starts (ends) with a white-space rune exactly when it starts
  (ends) with one of these byte sequences.
\<close>

definition spaceRunes :: "string list" where
  "spaceRunes =
     [[CHR 0x09], [CHR 0x0A], [CHR 0x0B], [CHR 0x0C], [CHR 0x0D], [CHR 0x20],
      [CHR 0xC2, CHR 0x85], [CHR 0xC2, CHR 0xA0],
      [CHR 0xE1, CHR 0x9A, CHR 0x80],
      [CHR 0xE2, CHR 0x80, CHR 0x80], [CHR 0xE2, CHR 0x80, CHR 0x81],
      [CHR 0xE2, CHR 0x80, CHR 0x82], [CHR 0xE2, CHR 0x80, CHR 0x83],
      [CHR 0xE2, CHR 0x80, CHR 0x84], [CHR 0xE2, CHR 0x80, CHR 0x85],
      [CHR 0xE2, CHR 0x80, CHR 0x86], [CHR 0xE2, CHR 0x80, CHR 0x87],
      [CHR 0xE2, CHR 0x80, CHR 0x88], [CHR 0xE2, CHR 0x80, CHR 0x89],
      [CHR 0xE2, CHR 0x80, CHR 0x8A],
      [CHR 0xE2, CHR 0x80, CHR 0xA8], [CHR 0xE2, CHR 0x80, CHR 0xA9],
      [CHR 0xE2, CHR 0x80, CHR 0xAF], [CHR 0xE2, CHR 0x81, CHR 0x9F],
      [CHR 0xE3, CHR 0x80, CHR 0x80]]"

function trimLeft :: "string list \<Rightarrow> string \<Rightarrow> string" where
  "trimLeft runes s =
     (case find (\<lambda>r. r \<noteq> [] \<and> HasPrefix s r) runes of
        None \<Rightarrow> s
      | Some r \<Rightarrow> trimLeft runes (drop (length r) s))"
  by pat_completeness auto
termination
proof (relation "measure (\<lambda>(runes, s). length s)")
  show "wf (measure (\<lambda>(runes, s). length s))"
    by simp
next
  fix runes :: "string list" and s r :: string
  assume "find (\<lambda>r. r \<noteq> [] \<and> HasPrefix s r) runes = Some r"
  then have "r \<noteq> []" and "take (length r) s = r"
    by (auto simp: find_Some_iff HasPrefix_def)
  then have "s \<noteq> []"
    by auto
  with \<open>r \<noteq> []\<close> show "((runes, drop (length r) s), (runes, s)) \<in> measure (\<lambda>(runes, s). length s)"
    by simp
qed

declare trimLeft.simps [simp del]

definition TrimSpace :: "string \<Rightarrow> string" where
  "TrimSpace s = rev (trimLeft (map rev spaceRunes) (rev (trimLeft spaceRunes s)))"

text \<open>
  \<open>string(b)\<close> for a byte \<open>b\<close>: the UTF-8 encoding of the code point \<open>b\<close>, one byte below
  \<open>0x80\<close> and two bytes from there on.
\<close>

definition stringOfByte :: "8 word \<Rightarrow> string" where
  "stringOfByte b =
     (if b < 0x80 then [char_of (unat b)]
      else [char_of (0xC0 + unat b div 64), char_of (0x80 + unat b mod 64)])"

section \<open>The resolver's types\<close>

text \<open>
  What the code reads of \<open>go/types\<close> and \<open>go/packages\<close>: a type is one of the shapes that
  \<open>typeFor\<close> and \<open>addImportsFor\<close> switch on. \<open>NilType\<close> is the nil interface value, and
  \<open>Unhandled\<close> is any other implementation of \<open>types.Type\<close> (an interface, struct, function
  or tuple type), with the name that \<open>reflect.TypeOf\<close> prints for it.
\<close>

datatype ChanDir = SendRecv | SendOnly | RecvOnly

record TypesPackage =
  PkgName :: string
  PkgPath :: string

record TypeName =
  ObjName :: string
  ObjPkg :: "TypesPackage option"

datatype gotype =
    NilType
  | Basic string
  | Pointer gotype
  | Slice gotype
  | Array int gotype
  | Map gotype gotype
  | Chan ChanDir gotype
  | Named "TypeName option"
  | Unhandled string

record Var =
  VarName :: string
  VarType :: gotype

record Signature =
  SigParams :: "Var list"
  SigResults :: "Var list"
  SigVariadic :: bool


text \<open>A method of the method set: the name of its \<open>types.Func\<close> and its signature.\<close>

record Selection =
  FuncName :: string
  FuncSig :: Signature

text \<open>
  The \<open>types.TypeName\<close> of the interface, with the method set that
  \<open>typeutil.IntuitiveMethodSet\<close> returns for its type, in that order.
\<close>

record InterfaceObj =
  IfaceName :: string
  IfaceMethods :: "Selection list"

datatype Object = TypeNameObject InterfaceObj | OtherObject

text \<open>
  A loaded package. \<open>PackageScope\<close> is \<open>None\<close> when \<open>Types\<close> or its scope is nil, and
  else the objects that the scope declares, by name; \<open>Lookup\<close> is \<^const>\<open>map_of\<close>.
\<close>

record Package =
  PackageName :: string
  PackagePath :: string
  PackageScope :: "(string \<times> Object) list option"

datatype failure = Error string | Panic string

section \<open>The fake and its import registry\<close>

record Import =
  Alias :: string
  Path :: string

record Param =
  ParamName :: string
  ParamType :: string
  IsVariadic :: bool
  IsSlice :: bool

record Return =
  ReturnName :: string
  ReturnType :: string

record Method =
  FakeName :: string
  MethodName :: string
  Params :: "Param list"
  Args :: string
  Returns :: "Return list"
  Rets :: string

record Fake =
  Packages :: "Package list"
  Package :: "Package option"
  Interface :: "InterfaceObj option"
  DestinationPackage :: string
  Name :: string
  InterfaceAlias :: string
  InterfaceName :: string
  InterfacePackage :: string
  Imports :: "Import list"
  Methods :: "Method list"

definition unvendor :: "string \<Rightarrow> string" where
  "unvendor s =
     (let i = LastIndex s ''/vendor/'' in
      if i \<ge> 0 then drop (nat i + length ''/vendor/'') s
      else if HasPrefix s ''vendor/'' then drop (length ''vendor/'') s
      else s)"

definition AddImport :: "string \<Rightarrow> string \<Rightarrow> Fake \<Rightarrow> Import \<times> Fake" where
  "AddImport alias path f =
     (let path = unvendor (TrimSpace path);
          alias = TrimSpace alias
      in case find (\<lambda>imp. Path imp = path) (Imports f) of
           Some imp \<Rightarrow> (imp, f)
         | None \<Rightarrow>
             (let result = \<lparr>Alias = alias, Path = path\<rparr>
              in (result, f\<lparr>Imports := Imports f @ [result]\<rparr>)))"

text \<open>\<open>sort.SliceStable\<close> by path: a stable sort, as \<^const>\<open>sort_key\<close> is.\<close>

definition sortImports :: "Fake \<Rightarrow> Fake" where
  "sortImports f = f\<lparr>Imports := sort_key Path (Imports f)\<rparr>"

text \<open>
  A Go map from aliases to import lists is an association list with distinct keys;
  reading a missing key gives the empty list.
\<close>

type_synonym AliasMap = "(string \<times> Import list) list"

definition lookupAlias :: "AliasMap \<Rightarrow> string \<Rightarrow> Import list" where
  "lookupAlias m a = (case map_of m a of None \<Rightarrow> [] | Some imports \<Rightarrow> imports)"

definition aliasMap :: "Fake \<Rightarrow> AliasMap" where
  "aliasMap f =
     foldl (\<lambda>result imp. AList.update (Alias imp) (lookupAlias result (Alias imp) @ [imp]) result)
       [] (Imports f)"

text \<open>
  Go leaves the order in which \<open>range\<close> visits a map unspecified, and it may differ from one
  \<open>range\<close> to the next. An order is given here by a rank on the keys, the entries being
  visited by increasing rank: every order of visiting a map is one of these.
\<close>

definition rangeMap :: "(string \<Rightarrow> nat) \<Rightarrow> AliasMap \<Rightarrow> AliasMap" where
  "rangeMap rank m = sort_key (\<lambda>kv. rank (fst kv)) m"

fun anyLongerThanOne :: "AliasMap \<Rightarrow> bool" where
  "anyLongerThanOne [] = False"
| "anyLongerThanOne ((a, imports) # rest) =
     (if length imports > 1 then True else anyLongerThanOne rest)"

definition hasDuplicateAliases :: "(string \<Rightarrow> nat) \<Rightarrow> Fake \<Rightarrow> bool" where
  "hasDuplicateAliases rank f = anyLongerThanOne (rangeMap rank (aliasMap f))"

text \<open>The suffix \<open>string('a'+byte(j-1))\<close>: the addition is on bytes and wraps around.\<close>

definition suffixFor :: "nat \<Rightarrow> string" where
  "suffixFor j = stringOfByte (97 + word_of_nat (j - 1))"

text \<open>
  The loop over \<open>j\<close> of \<open>disambiguateAliases\<close>, for the import at index \<open>i\<close>:
  \<open>imports\<close> is what is left of the group, \<open>j\<close> the index of its head.
\<close>

fun renameIn :: "Import list \<Rightarrow> nat \<Rightarrow> nat \<Rightarrow> Fake \<Rightarrow> Fake" where
  "renameIn [] j i f = f"
| "renameIn (imp # imports) j i f =
     renameIn imports (Suc j) i
       (if Path imp = Path (Imports f ! i) \<and> j > 0 then
          (let a = Alias (Imports f ! i) @ suffixFor j;
               f' = f\<lparr>Imports := (Imports f)[i := (Imports f ! i)\<lparr>Alias := a\<rparr>]\<rparr>
           in if Path (Imports f' ! i) = InterfacePackage f' then f'\<lparr>InterfaceAlias := a\<rparr> else f')
        else f)"

text \<open>The body of the loop over \<open>i\<close>.\<close>

definition renameAt :: "AliasMap \<Rightarrow> Fake \<Rightarrow> nat \<Rightarrow> Fake" where
  "renameAt byAlias f i =
     (let imports = lookupAlias byAlias (Alias (Imports f ! i))
      in if length imports = 1 then f else renameIn imports 0 i f)"

definition renameAll :: "Fake \<Rightarrow> Fake" where
  "renameAll f = foldl (renameAt (aliasMap f)) f [0..<length (Imports f)]"

text \<open>
  The \<open>for\<close> loop of \<open>disambiguateAliases\<close>. It may run forever, which is the value \<open>None\<close>.
  \<open>ranks n\<close> is the order of the \<open>n\<close>-th \<open>range\<close> over the alias map.
\<close>

partial_function (option) disambiguateLoop ::
    "(nat \<Rightarrow> string \<Rightarrow> nat) \<Rightarrow> nat \<Rightarrow> Fake \<Rightarrow> Fake option" where
  "disambiguateLoop ranks n f =
     (if \<not> hasDuplicateAliases (ranks n) f then Some f
      else disambiguateLoop ranks (Suc n) (renameAll f))"

declare disambiguateLoop.simps [code]

definition disambiguateAliases :: "(nat \<Rightarrow> string \<Rightarrow> nat) \<Rightarrow> Fake \<Rightarrow> Fake option" where
  "disambiguateAliases ranks f =
     (let f = sortImports f
      in if \<not> hasDuplicateAliases (ranks 0) f then Some f
         else disambiguateLoop ranks 1 f)"

text \<open>The order in which an association list was filled: every key has the same rank.\<close>

definition insertionOrder :: "nat \<Rightarrow> string \<Rightarrow> nat" where
  "insertionOrder n a = 0"

text \<open>
  The Go map from paths to imports that \<open>importsMap\<close> builds is only read by key; reading
  a missing key gives the zero \<open>Import\<close>.
\<close>

type_synonym ImportsMap = "string \<Rightarrow> Import option"

definition lookupImport :: "ImportsMap \<Rightarrow> string \<Rightarrow> Import" where
  "lookupImport m p = (case m p of None \<Rightarrow> \<lparr>Alias = [], Path = []\<rparr> | Some imp \<Rightarrow> imp)"

definition importsMap :: "(nat \<Rightarrow> string \<Rightarrow> nat) \<Rightarrow> Fake \<Rightarrow> (ImportsMap \<times> Fake) option" where
  "importsMap ranks f =
     (case disambiguateAliases ranks f of
        None \<Rightarrow> None
      | Some f' \<Rightarrow> Some (foldl (\<lambda>result imp. result(Path imp \<mapsto> imp)) Map.empty (Imports f'), f'))"

section \<open>Rendering types and building methods\<close>

text \<open>\<open>%v\<close> of an integer: its decimal digits, after a minus sign when it is negative.\<close>

function showNat :: "nat \<Rightarrow> string" where
  "showNat n = (if n < 10 then [char_of (48 + n)] else showNat (n div 10) @ [char_of (48 + n mod 10)])"
  by pat_completeness auto
termination
  by (relation "measure id") auto

declare showNat.simps [simp del]

definition showInt :: "int \<Rightarrow> string" where
  "showInt n = (if n < 0 then ''-'' @ showNat (nat (- n)) else showNat (nat n))"

fun typeFor :: "gotype \<Rightarrow> ImportsMap \<Rightarrow> string" where
  "typeFor NilType impMap = []"
| "typeFor (Slice t) impMap = ''[]'' @ typeFor t impMap"
| "typeFor (Array n t) impMap = ''['' @ showInt n @ '']'' @ typeFor t impMap"
| "typeFor (Pointer t) impMap = ''*'' @ typeFor t impMap"
| "typeFor (Map k v) impMap = ''map['' @ typeFor k impMap @ '']'' @ typeFor v impMap"
| "typeFor (Chan d t) impMap =
     (case d of
        SendRecv \<Rightarrow> ''chan '' @ typeFor t impMap
      | SendOnly \<Rightarrow> ''chan<- '' @ typeFor t impMap
      | RecvOnly \<Rightarrow> ''<-chan '' @ typeFor t impMap)"
| "typeFor (Basic name) impMap = name"
| "typeFor (Named obj) impMap =
     (case obj of
        None \<Rightarrow> []
      | Some tn \<Rightarrow>
          (case ObjPkg tn of
             None \<Rightarrow> ObjName tn
           | Some pkg \<Rightarrow>
               (let imp = lookupImport impMap (unvendor (PkgPath pkg))
                in if Path imp = [] then ObjName tn
                   else Alias imp @ ''.'' @ ObjName tn)))"
| "typeFor (Unhandled shape) impMap = []"

fun addImportsFor :: "gotype \<Rightarrow> Fake \<Rightarrow> Fake" where
  "addImportsFor NilType f = f"
| "addImportsFor (Basic name) f = f"
| "addImportsFor (Pointer t) f = addImportsFor t f"
| "addImportsFor (Map k v) f = addImportsFor v (addImportsFor k f)"
| "addImportsFor (Chan d t) f = addImportsFor t f"
| "addImportsFor (Named obj) f =
     (case obj of
        None \<Rightarrow> f
      | Some tn \<Rightarrow>
          (case ObjPkg tn of
             None \<Rightarrow> f
           | Some pkg \<Rightarrow> snd (AddImport (PkgName pkg) (PkgPath pkg) f)))"
| "addImportsFor (Slice t) f = addImportsFor t f"
| "addImportsFor (Array n t) f = addImportsFor t f"
| "addImportsFor (Unhandled shape) f = f"

text \<open>The first loop of \<open>Generate\<close>, for one method: its results, then its parameters.\<close>

definition addImportsForMethod :: "Fake \<Rightarrow> Selection \<Rightarrow> Fake" where
  "addImportsForMethod f m =
     (let sig = FuncSig m;
          f = foldl (\<lambda>f ret. addImportsFor (VarType ret) f) f (SigResults sig)
      in foldl (\<lambda>f param. addImportsFor (VarType param) f) f (SigParams sig))"

text \<open>
  The loop over the parameters of a method: \<open>is\<close> are the indices still to visit and
  \<open>params\<close> the parameters built so far. \<open>typ[2:]\<close> panics on a string shorter than two bytes.
\<close>

fun buildParams :: "ImportsMap \<Rightarrow> Signature \<Rightarrow> nat list \<Rightarrow> Param list \<Rightarrow> failure + Param list" where
  "buildParams impMap sig [] params = Inr params"
| "buildParams impMap sig (i # is) params =
     (let param = SigParams sig ! i;
          isVariadic = (int i = int (length (SigParams sig)) - 1 \<and> SigVariadic sig);
          typ = typeFor (VarType param) impMap
      in if isVariadic \<and> length typ < 2 then Inl (Panic ''slice bounds out of range'')
         else
           (let typ = (if isVariadic then ''...'' @ drop 2 typ else typ);
                p = \<lparr>ParamName = ''arg'' @ showNat (i + 1), ParamType = typ,
                     IsVariadic = isVariadic, IsSlice = HasPrefix typ ''[]''\<rparr>
            in buildParams impMap sig is (params @ [p])))"

fun buildReturns :: "ImportsMap \<Rightarrow> Signature \<Rightarrow> nat list \<Rightarrow> Return list \<Rightarrow> Return list" where
  "buildReturns impMap sig [] returns = returns"
| "buildReturns impMap sig (i # is) returns =
     (let ret = SigResults sig ! i;
          r = \<lparr>ReturnName = ''result'' @ showNat (i + 1),
               ReturnType = typeFor (VarType ret) impMap\<rparr>
      in buildReturns impMap sig is (returns @ [r]))"

text \<open>The second loop of \<open>Generate\<close>: \<open>ms\<close> are the methods still to visit.\<close>

fun buildMethods :: "ImportsMap \<Rightarrow> Selection list \<Rightarrow> Fake \<Rightarrow> failure + Fake" where
  "buildMethods impMap [] f = Inr f"
| "buildMethods impMap (m # ms) f =
     (let sig = FuncSig m
      in case buildParams impMap sig [0..<length (SigParams sig)] [] of
           Inl e \<Rightarrow> Inl e
         | Inr params \<Rightarrow>
             (let returns = buildReturns impMap sig [0..<length (SigResults sig)] [];
                  method = \<lparr>FakeName = Name f, MethodName = FuncName m, Params = params,
                            Args = [], Returns = returns, Rets = []\<rparr>
              in buildMethods impMap ms (f\<lparr>Methods := Methods f @ [method]\<rparr>)))"

text \<open>
  \<open>Generate\<close> up to the template: the fake as the template receives it. A nil \<open>Interface\<close>
  panics; \<open>None\<close> is a run that does not return.
\<close>

definition prepare :: "(nat \<Rightarrow> string \<Rightarrow> nat) \<Rightarrow> Fake \<Rightarrow> (failure + Fake) option" where
  "prepare ranks f =
     (case Interface f of
        None \<Rightarrow> Some (Inl (Panic ''nil pointer dereference''))
      | Some iface \<Rightarrow>
          (let methods = IfaceMethods iface;
               f = foldl addImportsForMethod f methods
           in case importsMap ranks f of
                None \<Rightarrow> None
              | Some (impMap, f) \<Rightarrow> Some (buildMethods impMap methods f)))"

text \<open>
  \<open>Generate\<close>. The template engine and the formatter are not part of this program:
  \<open>execute f\<close> is what \<open>tmpl.Execute\<close> writes into the buffer for the fake \<open>f\<close> (the error it
  returns is dropped by the code), and \<open>process\<close> is \<open>imports.Process\<close>.
\<close>

definition Generate ::
    "(Fake \<Rightarrow> string) \<Rightarrow> (string \<Rightarrow> failure + string) \<Rightarrow> (nat \<Rightarrow> string \<Rightarrow> nat) \<Rightarrow>
     bool \<Rightarrow> Fake \<Rightarrow> (failure + string) option" where
  "Generate execute process ranks runImports f =
     (case prepare ranks f of
        None \<Rightarrow> None
      | Some (Inl e) \<Rightarrow> Some (Inl e)
      | Some (Inr f) \<Rightarrow>
          (let b = execute f
           in if runImports then Some (process b) else Some (Inr b)))"

section \<open>What the template calls\<close>

text \<open>
  \<open>unexport\<close> lowers the first rune of a name. A rune below \<open>0x80\<close> is one byte, of
  which only the letters \<open>A\<close> to \<open>Z\<close> change. What becomes of a name that starts with
  a byte from \<open>0x80\<close> on is read from the case tables of Unicode, which are not part of
  this program: \<open>lowerFirst\<close> stands for it.
\<close>

definition unexport :: "(string \<Rightarrow> string) \<Rightarrow> string \<Rightarrow> string" where
  "unexport lowerFirst s =
     (case s of
        [] \<Rightarrow> []
      | c # cs \<Rightarrow>
          if (of_char c :: nat) < 128 then
            (if 65 \<le> (of_char c :: nat) \<and> (of_char c :: nat) \<le> 90
             then char_of (of_char c + 32 :: nat) else c) # cs
          else lowerFirst s)"

text \<open>\<open>strings.Join\<close>.\<close>

fun Join :: "string list \<Rightarrow> string \<Rightarrow> string" where
  "Join [] sep = []"
| "Join [x] sep = x"
| "Join (x # y # xs) sep = x @ sep @ Join (y # xs) sep"

text \<open>
  \<open>Params.AsNamedArgsWithTypes\<close>, which the template calls for the parameter list in the
  header of every method of the fake.
\<close>

definition AsNamedArgsWithTypes :: "(string \<Rightarrow> string) \<Rightarrow> Param list \<Rightarrow> string" where
  "AsNamedArgsWithTypes lowerFirst p =
     (if length p = 0 then []
      else Join (map (\<lambda>param. unexport lowerFirst (ParamName param) @ '' '' @ ParamType param) p)
             '', '')"

section \<open>Creating a fake\<close>

definition loadPackages :: "(string \<Rightarrow> failure + Package list) \<Rightarrow> string \<Rightarrow> Fake \<Rightarrow> failure + Fake" where
  "loadPackages load packagePath f =
     (case load packagePath of
        Inl err \<Rightarrow> Inl err
      | Inr p \<Rightarrow> Inr (f\<lparr>Packages := p\<rparr>))"

text \<open>
  The loop of \<open>findPackageWithInterface\<close>: \<open>pkg\<close> is the last package with a scope that was
  visited, and the loop breaks at the first scope that declares the name as a type name.
\<close>

fun findLoop :: "Package list \<Rightarrow> string \<Rightarrow> Package option \<Rightarrow> InterfaceObj option \<times> Package option" where
  "findLoop [] name pkg = (None, pkg)"
| "findLoop (p # ps) name pkg =
     (case PackageScope p of
        None \<Rightarrow> findLoop ps name pkg
      | Some scope \<Rightarrow>
          (case map_of scope name of
             Some (TypeNameObject typeName) \<Rightarrow> (Some typeName, Some p)
           | _ \<Rightarrow> findLoop ps name (Some p)))"

definition findPackageWithInterface :: "Fake \<Rightarrow> failure + Fake" where
  "findPackageWithInterface f =
     (case findLoop (Packages f) (InterfaceName f) None of
        (Some iface, Some pkg) \<Rightarrow>
          (let f = f\<lparr>Interface := Some iface, Package := Some pkg,
                     InterfaceName := IfaceName iface,
                     InterfacePackage := unvendor (PackagePath pkg),
                     InterfaceAlias := PackageName pkg\<rparr>
           in Inr (snd (AddImport (InterfaceAlias f) (InterfacePackage f) f)))
      | _ \<Rightarrow> Inl (Error (''cannot find package with interface '' @ InterfaceName f)))"

definition NewFake ::
    "(string \<Rightarrow> failure + Package list) \<Rightarrow> string \<Rightarrow> string \<Rightarrow> string \<Rightarrow> string \<Rightarrow> failure + Fake" where
  "NewFake load interfaceName packagePath fakeName destinationPackage =
     (let f = \<lparr>Packages = [], Package = None, Interface = None,
               DestinationPackage = destinationPackage, Name = fakeName,
               InterfaceAlias = [], InterfaceName = interfaceName,
               InterfacePackage = packagePath,
               Imports = [\<lparr>Alias = ''sync'', Path = ''sync''\<rparr>], Methods = []\<rparr>
      in case loadPackages load packagePath f of
           Inl err \<Rightarrow> Inl err
         | Inr f \<Rightarrow> findPackageWithInterface f)"

section \<open>The disambiguation as the specification words it\<close>

text \<open>
  The specification describes a round by groups: the imports are grouped by their current
  alias, in the order of the list; in a group of more than one import the first keeps its
  alias and the member at position \<open>k\<close> (the second member being at position 1) gets a
  suffix appended to its alias. The definitions of this section follow these words; they
  are compared with the code's loops further down.
\<close>

definition aliasGroup :: "Import list \<Rightarrow> string \<Rightarrow> Import list" where
  "aliasGroup xs a = filter (\<lambda>y. Alias y = a) xs"

text \<open>The position of an import in a group: the number of members before the one with its path.\<close>

definition positionIn :: "Import list \<Rightarrow> Import \<Rightarrow> nat" where
  "positionIn grp imp = length (takeWhile (\<lambda>y. Path y \<noteq> Path imp) grp)"

definition specRename :: "Import list \<Rightarrow> Import \<Rightarrow> Import" where
  "specRename xs imp =
     (let grp = aliasGroup xs (Alias imp);
          k = positionIn grp imp
      in if length grp > 1 \<and> k > 0 then imp\<lparr>Alias := Alias imp @ suffixFor k\<rparr> else imp)"

text \<open>
  A round: every import is renamed as its group says, and the interface's alias follows
  the import of the interface's package when that import was renamed.
\<close>

definition specRound :: "Fake \<Rightarrow> Fake" where
  "specRound f =
     (let xs = Imports f
      in f\<lparr>Imports := map (specRename xs) xs,
           InterfaceAlias :=
             (case find (\<lambda>imp. Path imp = InterfacePackage f \<and> specRename xs imp \<noteq> imp) xs of
                None \<Rightarrow> InterfaceAlias f
              | Some imp \<Rightarrow> Alias (specRename xs imp))\<rparr>)"

text \<open>An alias collides when the imports that carry it have more than one path.\<close>

definition aliasCollides :: "Import list \<Rightarrow> bool" where
  "aliasCollides xs =
     list_ex (\<lambda>a. length (remdups (map Path (aliasGroup xs a))) > 1) (map Alias xs)"

partial_function (option) specLoop :: "Fake \<Rightarrow> Fake option" where
  "specLoop f = (if \<not> aliasCollides (Imports f) then Some f else specLoop (specRound f))"

declare specLoop.simps [code]

definition specDisambiguate :: "Fake \<Rightarrow> Fake option" where
  "specDisambiguate f = specLoop (f\<lparr>Imports := sort_key Path (Imports f)\<rparr>)"

definition lowercaseLetters :: string where
  "lowercaseLetters = ''abcdefghijklmnopqrstuvwxyz''"

text \<open>The new alias is the old one with a single lowercase letter appended.\<close>

definition appendsLowercase :: "string \<Rightarrow> string \<Rightarrow> bool" where
  "appendsLowercase old new = list_ex (\<lambda>c. new = old @ [c]) lowercaseLetters"

text \<open>
  The decimal digits and the number that a string of them denotes: what \<open>%v\<close> of a
  non-negative integer has to be read back as.
\<close>

definition isDigit :: "char \<Rightarrow> bool" where
  "isDigit c = (48 \<le> (of_char c :: nat) \<and> (of_char c :: nat) \<le> 57)"

definition decimalValue :: "string \<Rightarrow> nat" where
  "decimalValue s = foldl (\<lambda>v c. 10 * v + (of_char c - 48)) 0 s"

section \<open>A measure for the loop\<close>

text \<open>
  The room that the alias at index \<open>i\<close> has left before it is longer than all the aliases
  before it together. A round leaves the aliases before the first renamed one as they are
  and makes that one longer, so the list of these numbers decreases lexicographically.
\<close>

definition slack :: "string list \<Rightarrow> nat \<Rightarrow> nat" where
  "slack as i = Suc (sum_list (map length (take i as))) - length (as ! i)"

definition slacks :: "string list \<Rightarrow> nat list" where
  "slacks as = map (slack as) [0..<length as]"

section \<open>Example inputs\<close>

text \<open>
  An interface with the method \<open>Do(interface{}, ...string) error\<close>: an empty interface
  type, which the renderer has no case for, and a variadic parameter.
\<close>

definition doMethod :: Selection where
  "doMethod =
     \<lparr>FuncName = ''Do'',
      FuncSig =
        \<lparr>SigParams =
           [\<lparr>VarName = ''target'', VarType = Unhandled ''*types.Interface''\<rparr>,
            \<lparr>VarName = ''names'', VarType = Slice (Basic ''string'')\<rparr>],
         SigResults =
           [\<lparr>VarName = [], VarType = Named (Some \<lparr>ObjName = ''error'', ObjPkg = None\<rparr>)\<rparr>],
         SigVariadic = True\<rparr>\<rparr>"

definition exampleScope :: "(string \<times> Object) list" where
  "exampleScope =
     [(''helper'', OtherObject),
      (''Doer'', TypeNameObject \<lparr>IfaceName = ''Doer'', IfaceMethods = [doMethod]\<rparr>)]"

definition exampleLoad :: "string \<Rightarrow> failure + Package list" where
  "exampleLoad packagePath =
     Inr [\<lparr>PackageName = ''broken'', PackagePath = ''example.com/broken'', PackageScope = None\<rparr>,
          \<lparr>PackageName = ''doer'', PackagePath = ''example.com/app/vendor/example.com/doer'',
           PackageScope = Some exampleScope\<rparr>]"

definition emptyFake :: Fake where
  "emptyFake =
     \<lparr>Packages = [], Package = None, Interface = None,
      DestinationPackage = ''fakes'', Name = ''FakeThing'',
      InterfaceAlias = ''thing'', InterfaceName = ''Thing'',
      InterfacePackage = ''example.com/thing'',
      Imports = [\<lparr>Alias = ''sync'', Path = ''sync''\<rparr>], Methods = []\<rparr>"

text \<open>A fake whose imports collide twice, the second time through a suffix of the first round.\<close>

definition collidingFake :: Fake where
  "collidingFake =
     \<lparr>Packages = [], Package = None, Interface = None,
      DestinationPackage = ''fakes'', Name = ''FakeThing'',
      InterfaceAlias = ''thing'', InterfaceName = ''Thing'',
      InterfacePackage = ''example.com/b/thing'',
      Imports =
        [\<lparr>Alias = ''sync'', Path = ''sync''\<rparr>,
         \<lparr>Alias = ''thing'', Path = ''example.com/b/thing''\<rparr>,
         \<lparr>Alias = ''thinga'', Path = ''example.com/c/thinga''\<rparr>,
         \<lparr>Alias = ''thing'', Path = ''example.com/a/thing''\<rparr>],
      Methods = []\<rparr>"

definition collidingFakeDone :: Fake where
  "collidingFakeDone =
     \<lparr>Packages = [], Package = None, Interface = None,
      DestinationPackage = ''fakes'', Name = ''FakeThing'',
      InterfaceAlias = ''thinga'', InterfaceName = ''Thing'',
      InterfacePackage = ''example.com/b/thing'',
      Imports =
        [\<lparr>Alias = ''thing'', Path = ''example.com/a/thing''\<rparr>,
         \<lparr>Alias = ''thinga'', Path = ''example.com/b/thing''\<rparr>,
         \<lparr>Alias = ''thingaa'', Path = ''example.com/c/thinga''\<rparr>,
         \<lparr>Alias = ''sync'', Path = ''sync''\<rparr>],
      Methods = []\<rparr>"

text \<open>A fake with twenty-eight packages of the same name.\<close>

definition manyFake :: Fake where
  "manyFake =
     \<lparr>Packages = [], Package = None, Interface = None,
      DestinationPackage = ''fakes'', Name = ''FakeThing'',
      InterfaceAlias = ''v1'', InterfaceName = ''Thing'',
      InterfacePackage = ''example.com/api/p01/v1'',
      Imports =
       [\<lparr>Alias = ''v1'', Path = ''example.com/api/p01/v1''\<rparr>,
        \<lparr>Alias = ''v1'', Path = ''example.com/api/p02/v1''\<rparr>,
        \<lparr>Alias = ''v1'', Path = ''example.com/api/p03/v1''\<rparr>,
        \<lparr>Alias = ''v1'', Path = ''example.com/api/p04/v1''\<rparr>,
        \<lparr>Alias = ''v1'', Path = ''example.com/api/p05/v1''\<rparr>,
        \<lparr>Alias = ''v1'', Path = ''example.com/api/p06/v1''\<rparr>,
        \<lparr>Alias = ''v1'', Path = ''example.com/api/p07/v1''\<rparr>,
        \<lparr>Alias = ''v1'', Path = ''example.com/api/p08/v1''\<rparr>,
        \<lparr>Alias = ''v1'', Path = ''example.com/api/p09/v1''\<rparr>,
        \<lparr>Alias = ''v1'', Path = ''example.com/api/p10/v1''\<rparr>,
        \<lparr>Alias = ''v1'', Path = ''example.com/api/p11/v1''\<rparr>,
        \<lparr>Alias = ''v1'', Path = ''example.com/api/p12/v1''\<rparr>,
        \<lparr>Alias = ''v1'', Path = ''example.com/api/p13/v1''\<rparr>,
        \<lparr>Alias = ''v1'', Path = ''example.com/api/p14/v1''\<rparr>,
        \<lparr>Alias = ''v1'', Path = ''example.com/api/p15/v1''\<rparr>,
        \<lparr>Alias = ''v1'', Path = ''example.com/api/p16/v1''\<rparr>,
        \<lparr>Alias = ''v1'', Path = ''example.com/api/p17/v1''\<rparr>,
        \<lparr>Alias = ''v1'', Path = ''example.com/api/p18/v1''\<rparr>,
        \<lparr>Alias = ''v1'', Path = ''example.com/api/p19/v1''\<rparr>,
        \<lparr>Alias = ''v1'', Path = ''example.com/api/p20/v1''\<rparr>,
        \<lparr>Alias = ''v1'', Path = ''example.com/api/p21/v1''\<rparr>,
        \<lparr>Alias = ''v1'', Path = ''example.com/api/p22/v1''\<rparr>,
        \<lparr>Alias = ''v1'', Path = ''example.com/api/p23/v1''\<rparr>,
        \<lparr>Alias = ''v1'', Path = ''example.com/api/p24/v1''\<rparr>,
        \<lparr>Alias = ''v1'', Path = ''example.com/api/p25/v1''\<rparr>,
        \<lparr>Alias = ''v1'', Path = ''example.com/api/p26/v1''\<rparr>,
        \<lparr>Alias = ''v1'', Path = ''example.com/api/p27/v1''\<rparr>,
        \<lparr>Alias = ''v1'', Path = ''example.com/api/p28/v1''\<rparr>],
      Methods = []\<rparr>"

definition doFake :: Fake where
  "doFake =
     \<lparr>Packages =
        [\<lparr>PackageName = ''broken'', PackagePath = ''example.com/broken'', PackageScope = None\<rparr>,
         \<lparr>PackageName = ''doer'', PackagePath = ''example.com/app/vendor/example.com/doer'',
          PackageScope = Some exampleScope\<rparr>],
      Package =
        Some \<lparr>PackageName = ''doer'', PackagePath = ''example.com/app/vendor/example.com/doer'',
          PackageScope = Some exampleScope\<rparr>,
      Interface = Some \<lparr>IfaceName = ''Doer'', IfaceMethods = [doMethod]\<rparr>,
      DestinationPackage = ''fakes'', Name = ''FakeDoer'',
      InterfaceAlias = ''doer'', InterfaceName = ''Doer'',
      InterfacePackage = ''example.com/doer'',
      Imports =
        [\<lparr>Alias = ''sync'', Path = ''sync''\<rparr>,
         \<lparr>Alias = ''doer'', Path = ''example.com/doer''\<rparr>],
      Methods = []\<rparr>"

definition doFakeDone :: Fake where
  "doFakeDone =
     \<lparr>Packages =
        [\<lparr>PackageName = ''broken'', PackagePath = ''example.com/broken'', PackageScope = None\<rparr>,
         \<lparr>PackageName = ''doer'', PackagePath = ''example.com/app/vendor/example.com/doer'',
          PackageScope = Some exampleScope\<rparr>],
      Package =
        Some \<lparr>PackageName = ''doer'', PackagePath = ''example.com/app/vendor/example.com/doer'',
          PackageScope = Some exampleScope\<rparr>,
      Interface = Some \<lparr>IfaceName = ''Doer'', IfaceMethods = [doMethod]\<rparr>,
      DestinationPackage = ''fakes'', Name = ''FakeDoer'',
      InterfaceAlias = ''doer'', InterfaceName = ''Doer'',
      InterfacePackage = ''example.com/doer'',
      Imports =
        [\<lparr>Alias = ''doer'', Path = ''example.com/doer''\<rparr>,
         \<lparr>Alias = ''sync'', Path = ''sync''\<rparr>],
      Methods =
        [\<lparr>FakeName = ''FakeDoer'', MethodName = ''Do'',
          Params =
            [\<lparr>ParamName = ''arg1'', ParamType = [], IsVariadic = False, IsSlice = False\<rparr>,
             \<lparr>ParamName = ''arg2'', ParamType = ''...string'', IsVariadic = True,
              IsSlice = False\<rparr>],
          Args = [],
          Returns = [\<lparr>ReturnName = ''result1'', ReturnType = ''error''\<rparr>],
          Rets = []\<rparr>]\<rparr>"


section \<open>The alias map\<close>

lemma lookupAlias_update:
  "lookupAlias (AList.update k v m) a = (if a = k then v else lookupAlias m a)"
  by (simp add: lookupAlias_def update_conv)

lemma map_of_aliasMap_fold:
  "map_of (foldl (\<lambda>result imp. AList.update (Alias imp) (lookupAlias result (Alias imp) @ [imp]) result)
       acc xs) a =
     (if filter (\<lambda>y. Alias y = a) xs = [] then map_of acc a
      else Some (lookupAlias acc a @ filter (\<lambda>y. Alias y = a) xs))"
proof (induction xs arbitrary: acc)
  case Nil
  then show ?case by simp
next
  case (Cons x xs)
  show ?case
    by (simp add: Cons.IH update_conv lookupAlias_update)
qed

lemma lookupAlias_aliasMap_fold:
  "lookupAlias (foldl (\<lambda>result imp. AList.update (Alias imp) (lookupAlias result (Alias imp) @ [imp]) result)
       acc xs) a = lookupAlias acc a @ filter (\<lambda>y. Alias y = a) xs"
  by (induction xs arbitrary: acc) (simp_all add: lookupAlias_update)

lemma lookupAlias_aliasMap:
  "lookupAlias (aliasMap f) a = filter (\<lambda>y. Alias y = a) (Imports f)"
  by (simp add: aliasMap_def lookupAlias_aliasMap_fold) (simp add: lookupAlias_def)

lemma distinct_keys_aliasMap_fold:
  "distinct (map fst acc) \<Longrightarrow>
   distinct (map fst (foldl (\<lambda>result imp. AList.update (Alias imp) (lookupAlias result (Alias imp) @ [imp]) result)
       acc xs))"
  by (induction xs arbitrary: acc) (simp_all add: distinct_update)

lemma distinct_keys_aliasMap: "distinct (map fst (aliasMap f))"
  by (simp add: aliasMap_def distinct_keys_aliasMap_fold)

lemma in_aliasMap_iff:
  "(a, imports) \<in> set (aliasMap f) \<longleftrightarrow>
     imports \<noteq> [] \<and> imports = filter (\<lambda>y. Alias y = a) (Imports f)"
proof -
  have "(a, imports) \<in> set (aliasMap f) \<longleftrightarrow> map_of (aliasMap f) a = Some imports"
    by (simp add: distinct_keys_aliasMap)
  also have "\<dots> \<longleftrightarrow> imports \<noteq> [] \<and> imports = filter (\<lambda>y. Alias y = a) (Imports f)"
    unfolding aliasMap_def map_of_aliasMap_fold
    by (auto simp: lookupAlias_def)
  finally show ?thesis .
qed

lemma anyLongerThanOne_iff:
  "anyLongerThanOne m \<longleftrightarrow> (\<exists>kv \<in> set m. length (snd kv) > 1)"
  by (induction m rule: anyLongerThanOne.induct) auto

lemma distinct_map_filter_le1:
  "distinct (map g xs) \<longleftrightarrow> (\<forall>a. length (filter (\<lambda>y. g y = a) xs) \<le> 1)"
proof (induction xs)
  case Nil
  then show ?case by simp
next
  case (Cons x xs)
  have "g x \<notin> g ` set xs \<longleftrightarrow> filter (\<lambda>y. g y = g x) xs = []"
    unfolding filter_empty_conv image_iff by metis
  then show ?case
    using Cons.IH by (auto simp: le_Suc_eq)
qed

lemma hasDuplicateAliases_iff:
  "hasDuplicateAliases rank f \<longleftrightarrow> \<not> distinct (map Alias (Imports f))"
proof -
  have "hasDuplicateAliases rank f \<longleftrightarrow> (\<exists>kv \<in> set (aliasMap f). length (snd kv) > 1)"
    by (simp add: hasDuplicateAliases_def rangeMap_def anyLongerThanOne_iff)
  also have "\<dots> \<longleftrightarrow> (\<exists>a. length (filter (\<lambda>y. Alias y = a) (Imports f)) > 1)"
  proof
    assume "\<exists>kv \<in> set (aliasMap f). length (snd kv) > 1"
    then obtain a imps where "(a, imps) \<in> set (aliasMap f)" "length imps > 1"
      by auto
    then show "\<exists>a. length (filter (\<lambda>y. Alias y = a) (Imports f)) > 1"
      by (auto simp: in_aliasMap_iff)
  next
    assume "\<exists>a. length (filter (\<lambda>y. Alias y = a) (Imports f)) > 1"
    then obtain a where a: "length (filter (\<lambda>y. Alias y = a) (Imports f)) > 1"
      by blast
    then have "(a, filter (\<lambda>y. Alias y = a) (Imports f)) \<in> set (aliasMap f)"
      by (auto simp: in_aliasMap_iff)
    with a show "\<exists>kv \<in> set (aliasMap f). length (snd kv) > 1"
      by force
  qed
  also have "\<dots> \<longleftrightarrow> \<not> distinct (map Alias (Imports f))"
    by (auto simp: distinct_map_filter_le1 not_le)
  finally show ?thesis .
qed

section \<open>What the loop over a group keeps\<close>

lemma renameIn_keeps:
  "length (Imports (renameIn imports j i f)) = length (Imports f) \<and>
   map Path (Imports (renameIn imports j i f)) = map Path (Imports f) \<and>
   InterfacePackage (renameIn imports j i f) = InterfacePackage f \<and>
   Methods (renameIn imports j i f) = Methods f \<and>
   Interface (renameIn imports j i f) = Interface f \<and>
   Name (renameIn imports j i f) = Name f"
proof (induction "imports" arbitrary: j f)
  case Nil
  then show ?case by simp
next
  case (Cons imp imps)
  have upd: "map Path (xs[i := (xs ! i)\<lparr>Alias := a\<rparr>]) = map Path xs" for xs :: "Import list" and a
    by (simp add: map_update list_update_same_conv)
       (metis list_update_id map_update)
  show ?case
    by (simp add: Cons.IH Let_def upd)
qed

section \<open>The loop over a group\<close>

lemma suffixFor_not_Nil: "suffixFor j \<noteq> []"
  by (simp add: suffixFor_def stringOfByte_def)

lemma renameIn_no_match:
  "Path (Imports f ! i) \<notin> Path ` set imps \<Longrightarrow> renameIn imps j i f = f"
  by (induction imps arbitrary: j) auto

lemma renameIn_skip:
  "Path (Imports f ! i) \<notin> Path ` set skipped \<Longrightarrow>
     renameIn (skipped @ rest) j i f = renameIn rest (j + length skipped) i f"
  by (induction skipped arbitrary: j) auto

lemma renameIn_match_head:
  assumes "Path imp = Path (Imports f ! i)"
    and "Path imp \<notin> Path ` set imps"
    and "i < length (Imports f)"
  shows "renameIn (imp # imps) j i f =
     (if j > 0 then
        f\<lparr>Imports := (Imports f)[i := (Imports f ! i)\<lparr>Alias := Alias (Imports f ! i) @ suffixFor j\<rparr>],
          InterfaceAlias :=
            (if Path imp = InterfacePackage f then Alias (Imports f ! i) @ suffixFor j
             else InterfaceAlias f)\<rparr>
      else f)"
proof (cases "j > 0")
  case False
  with assms show ?thesis
    by (simp add: renameIn_no_match)
next
  case True
  let ?a = "Alias (Imports f ! i) @ suffixFor j"
  let ?f1 = "f\<lparr>Imports := (Imports f)[i := (Imports f ! i)\<lparr>Alias := ?a\<rparr>]\<rparr>"
  let ?f2 = "if Path (Imports ?f1 ! i) = InterfacePackage ?f1 then ?f1\<lparr>InterfaceAlias := ?a\<rparr> else ?f1"
  have path: "Path (Imports ?f2 ! i) = Path imp"
    using assms by simp
  have "renameIn (imp # imps) j i f = renameIn imps (Suc j) i ?f2"
    using True assms by (simp add: Let_def)
  also have "\<dots> = ?f2"
    using assms(2) path by (intro renameIn_no_match) simp
  finally show ?thesis
    using True assms by simp
qed

lemma renameIn_distinct:
  assumes "Path imp = Path (Imports f ! i)"
    and "Path imp \<notin> Path ` set before"
    and "Path imp \<notin> Path ` set after"
    and "i < length (Imports f)"
  shows "renameIn (before @ imp # after) 0 i f =
     (if length before > 0 then
        f\<lparr>Imports := (Imports f)[i := (Imports f ! i)\<lparr>Alias := Alias (Imports f ! i) @ suffixFor (length before)\<rparr>],
          InterfaceAlias :=
            (if Path imp = InterfacePackage f then Alias (Imports f ! i) @ suffixFor (length before)
             else InterfaceAlias f)\<rparr>
      else f)"
proof -
  have "Path (Imports f ! i) \<notin> Path ` set before"
    using assms(1,2) by simp
  from renameIn_skip [OF this, of "imp # after" 0]
  have "renameIn (before @ imp # after) 0 i f = renameIn (imp # after) (length before) i f"
    by (simp only: add_0)
  then show ?thesis
    by (simp only: renameIn_match_head [OF assms(1,3,4)])
qed

section \<open>The loop over the imports\<close>

lemma filter_split_nth:
  assumes "i < length xs" and "P (xs ! i)"
  shows "filter P xs = filter P (take i xs) @ xs ! i # filter P (drop (Suc i) xs)"
proof -
  have "filter P xs = filter P (take i xs @ xs ! i # drop (Suc i) xs)"
    using assms(1) by (simp only: id_take_nth_drop [symmetric])
  with assms(2) show ?thesis
    by simp
qed

lemma distinct_paths_nth:
  assumes "distinct (map Path xs)" and "i < length xs"
  shows "Path (xs ! i) \<notin> Path ` set (take i xs)"
    and "Path (xs ! i) \<notin> Path ` set (drop (Suc i) xs)"
proof -
  have "distinct (map Path (take i xs @ xs ! i # drop (Suc i) xs))"
    using assms by (simp only: id_take_nth_drop [symmetric])
  then show "Path (xs ! i) \<notin> Path ` set (take i xs)"
    and "Path (xs ! i) \<notin> Path ` set (drop (Suc i) xs)"
    by auto
qed

lemma positionIn_nth:
  assumes "distinct (map Path xs)" and "i < length xs"
  shows "positionIn (aliasGroup xs (Alias (xs ! i))) (xs ! i) =
     length (aliasGroup (take i xs) (Alias (xs ! i)))"
proof -
  let ?P = "\<lambda>y. Alias y = Alias (xs ! i)"
  let ?Q = "\<lambda>y. Path y \<noteq> Path (xs ! i)"
  have all: "\<And>y. y \<in> set (filter ?P (take i xs)) \<Longrightarrow> ?Q y"
    using distinct_paths_nth(1) [OF assms] by (metis filter_is_subset imageI subsetD)
  have "takeWhile ?Q (filter ?P xs) =
      takeWhile ?Q (filter ?P (take i xs) @ xs ! i # filter ?P (drop (Suc i) xs))"
    using filter_split_nth [of i xs ?P] assms(2) by simp
  also have "\<dots> = filter ?P (take i xs) @ takeWhile ?Q (xs ! i # filter ?P (drop (Suc i) xs))"
    by (rule takeWhile_append2) (rule all)
  also have "\<dots> = filter ?P (take i xs)"
    by simp
  finally show ?thesis
    by (simp add: positionIn_def aliasGroup_def)
qed

lemma length_aliasGroup_nth:
  assumes "i < length xs"
  shows "length (aliasGroup (take i xs) (Alias (xs ! i))) < length (aliasGroup xs (Alias (xs ! i)))"
  using filter_split_nth [of i xs "\<lambda>y. Alias y = Alias (xs ! i)"] assms
  by (simp add: aliasGroup_def)

lemma specRename_nth:
  assumes "distinct (map Path xs)" and "i < length xs"
  shows "specRename xs (xs ! i) =
     (if length (aliasGroup (take i xs) (Alias (xs ! i))) > 0
      then (xs ! i)\<lparr>Alias := Alias (xs ! i) @ suffixFor (length (aliasGroup (take i xs) (Alias (xs ! i))))\<rparr>
      else xs ! i)"
proof -
  let ?k = "length (aliasGroup (take i xs) (Alias (xs ! i)))"
  have "?k > 0 \<Longrightarrow> length (aliasGroup xs (Alias (xs ! i))) > 1"
    using length_aliasGroup_nth [OF assms(2)] by linarith
  then have "(length (aliasGroup xs (Alias (xs ! i))) > 1 \<and> ?k > 0) = (?k > 0)"
    by blast
  then show ?thesis
    by (simp only: specRename_def positionIn_nth [OF assms] Let_def)
qed

lemma specRename_changes:
  assumes "distinct (map Path xs)" and "i < length xs"
  shows "specRename xs (xs ! i) \<noteq> xs ! i \<longleftrightarrow> length (aliasGroup (take i xs) (Alias (xs ! i))) > 0"
proof -
  have "(imp\<lparr>Alias := Alias imp @ s\<rparr> = imp) = (s = [])" for imp :: Import and s
    by (cases imp) simp
  then show ?thesis
    by (simp add: specRename_nth [OF assms] suffixFor_not_Nil)
qed

text \<open>One step of the loop over i, on a state whose import at i is still the one of the round's start.\<close>

lemma renameAt_step:
  assumes "distinct (map Path (Imports f))" and "i < length (Imports f)"
    and "length (Imports g) = length (Imports f)"
    and "Imports g ! i = Imports f ! i"
  shows "renameAt (aliasMap f) g i =
     (if specRename (Imports f) (Imports f ! i) \<noteq> Imports f ! i then
        g\<lparr>Imports := (Imports g)[i := specRename (Imports f) (Imports f ! i)],
          InterfaceAlias :=
            (if Path (Imports f ! i) = InterfacePackage g
             then Alias (specRename (Imports f) (Imports f ! i))
             else InterfaceAlias g)\<rparr>
      else g)"
proof -
  let ?xs = "Imports f"
  let ?P = "\<lambda>y. Alias y = Alias (?xs ! i)"
  let ?before = "filter ?P (take i ?xs)"
  let ?after = "filter ?P (drop (Suc i) ?xs)"
  have grp: "lookupAlias (aliasMap f) (Alias (Imports g ! i)) = ?before @ ?xs ! i # ?after"
    using filter_split_nth [of i ?xs ?P] assms(2,4) by (simp add: lookupAlias_aliasMap)
  have nb: "Path (?xs ! i) \<notin> Path ` set ?before"
    using distinct_paths_nth(1) [OF assms(1,2)] by auto
  have na: "Path (?xs ! i) \<notin> Path ` set ?after"
    using distinct_paths_nth(2) [OF assms(1,2)] by auto
  have same: "Path (?xs ! i) = Path (Imports g ! i)"
    using assms(4) by simp
  have ig: "i < length (Imports g)"
    using assms(2,3) by simp
  note run = renameIn_distinct [OF same nb na ig]
  show ?thesis
  proof (cases "?before = []")
    case True
    then have "specRename ?xs (?xs ! i) = ?xs ! i"
      by (simp add: specRename_nth [OF assms(1,2)] aliasGroup_def)
    moreover have "renameAt (aliasMap f) g i = g"
      using True run by (simp add: renameAt_def grp Let_def)
    ultimately show ?thesis
      by simp
  next
    case False
    then have new: "specRename ?xs (?xs ! i) =
        (?xs ! i)\<lparr>Alias := Alias (?xs ! i) @ suffixFor (length ?before)\<rparr>"
      by (simp add: specRename_nth [OF assms(1,2)] aliasGroup_def)
    have changes: "specRename ?xs (?xs ! i) \<noteq> ?xs ! i"
      using False by (simp add: specRename_changes [OF assms(1,2)] aliasGroup_def)
    have "renameAt (aliasMap f) g i = renameIn (?before @ ?xs ! i # ?after) 0 i g"
      using False by (simp add: renameAt_def grp Let_def)
    then show ?thesis
      using False changes by (simp add: run new assms(4))
  qed
qed

section \<open>A round of the code is a round of the specification\<close>

lemma find_snoc:
  "find P (xs @ [x]) = (case find P xs of None \<Rightarrow> (if P x then Some x else None) | Some y \<Rightarrow> Some y)"
  by (induction xs) auto

lemma find_SomeD: "find P xs = Some x \<Longrightarrow> x \<in> set xs \<and> P x"
  by (induction xs) (auto split: if_splits)

lemma renameAll_prefix:
  assumes "distinct (map Path (Imports f))" and "m \<le> length (Imports f)"
  shows "foldl (renameAt (aliasMap f)) f [0..<m] =
     f\<lparr>Imports := map (specRename (Imports f)) (take m (Imports f)) @ drop m (Imports f),
       InterfaceAlias :=
         (case find (\<lambda>imp. Path imp = InterfacePackage f \<and> specRename (Imports f) imp \<noteq> imp)
                 (take m (Imports f)) of
            None \<Rightarrow> InterfaceAlias f
          | Some imp \<Rightarrow> Alias (specRename (Imports f) imp))\<rparr>"
  using assms(2)
proof (induction m)
  case 0
  then show ?case by simp
next
  case (Suc m)
  let ?xs = "Imports f"
  let ?r = "specRename ?xs"
  let ?hit = "\<lambda>imp. Path imp = InterfacePackage f \<and> ?r imp \<noteq> imp"
  let ?ia = "\<lambda>m. case find ?hit (take m ?xs) of None \<Rightarrow> InterfaceAlias f | Some imp \<Rightarrow> Alias (?r imp)"
  let ?g = "f\<lparr>Imports := map ?r (take m ?xs) @ drop m ?xs, InterfaceAlias := ?ia m\<rparr>"
  from Suc.prems have m: "m < length ?xs"
    by simp
  have prev: "foldl (renameAt (aliasMap f)) f [0..<m] = ?g"
    using Suc.IH m by simp
  have len: "length (Imports ?g) = length ?xs"
    by simp
  have nth: "Imports ?g ! m = ?xs ! m"
    using m by (simp add: nth_append)
  note step = renameAt_step [OF assms(1) m len nth]
  have take_Suc: "take (Suc m) ?xs = take m ?xs @ [?xs ! m]"
    using m by (rule take_Suc_conv_app_nth)
  have drop_m: "drop m ?xs = ?xs ! m # drop (Suc m) ?xs"
    using m by (rule Cons_nth_drop_Suc [symmetric])
  have upd: "(map ?r (take m ?xs) @ drop m ?xs)[m := ?r (?xs ! m)] =
      map ?r (take (Suc m) ?xs) @ drop (Suc m) ?xs"
    using m by (simp add: take_Suc drop_m list_update_append)
  have same: "?r (?xs ! m) = ?xs ! m \<Longrightarrow>
      map ?r (take m ?xs) @ drop m ?xs = map ?r (take (Suc m) ?xs) @ drop (Suc m) ?xs"
    by (simp add: take_Suc drop_m [symmetric])
  have earlier: "Path (?xs ! m) \<noteq> InterfacePackage f" if "find ?hit (take m ?xs) = Some imp" for imp
  proof -
    from find_SomeD [OF that] have "imp \<in> set (take m ?xs)" and "Path imp = InterfacePackage f"
      by simp_all
    then have "InterfacePackage f \<in> Path ` set (take m ?xs)"
      by (metis imageI)
    with distinct_paths_nth(1) [OF assms(1) m] show ?thesis
      by auto
  qed
  have ia: "?ia (Suc m) =
      (if ?r (?xs ! m) \<noteq> ?xs ! m \<and> Path (?xs ! m) = InterfacePackage f then Alias (?r (?xs ! m))
       else ?ia m)"
    using earlier by (auto simp: take_Suc find_snoc split: option.splits)
  have "foldl (renameAt (aliasMap f)) f [0..<Suc m] = renameAt (aliasMap f) ?g m"
    by (simp add: prev)
  also have "\<dots> = f\<lparr>Imports := map ?r (take (Suc m) ?xs) @ drop (Suc m) ?xs, InterfaceAlias := ?ia (Suc m)\<rparr>"
  proof (cases "?r (?xs ! m) = ?xs ! m")
    case True
    then show ?thesis
      by (simp only: step ia) (simp add: same)
  next
    case False
    then show ?thesis
      by (simp only: step ia) (simp add: upd)
  qed
  finally show ?case .
qed

lemma renameAll_eq_specRound:
  assumes "distinct (map Path (Imports f))"
  shows "renameAll f = specRound f"
  using renameAll_prefix [OF assms, of "length (Imports f)"]
  by (simp add: renameAll_def specRound_def Let_def)

section \<open>What a round keeps and what it changes\<close>

text \<open>Renaming keeps paths.\<close>

lemma renameAt_keeps:
  "length (Imports (renameAt byAlias f i)) = length (Imports f) \<and>
   map Path (Imports (renameAt byAlias f i)) = map Path (Imports f) \<and>
   InterfacePackage (renameAt byAlias f i) = InterfacePackage f \<and>
   Methods (renameAt byAlias f i) = Methods f \<and>
   Interface (renameAt byAlias f i) = Interface f \<and>
   Name (renameAt byAlias f i) = Name f"
  by (simp add: renameAt_def Let_def renameIn_keeps)

lemma foldl_renameAt_keeps:
  "length (Imports (foldl (renameAt byAlias) f is)) = length (Imports f) \<and>
   map Path (Imports (foldl (renameAt byAlias) f is)) = map Path (Imports f) \<and>
   InterfacePackage (foldl (renameAt byAlias) f is) = InterfacePackage f \<and>
   Methods (foldl (renameAt byAlias) f is) = Methods f \<and>
   Interface (foldl (renameAt byAlias) f is) = Interface f \<and>
   Name (foldl (renameAt byAlias) f is) = Name f"
  by (induction "is" arbitrary: f) (simp_all add: renameAt_keeps)

lemma renameAll_keeps:
  "length (Imports (renameAll f)) = length (Imports f)"
  "map Path (Imports (renameAll f)) = map Path (Imports f)"
  "InterfacePackage (renameAll f) = InterfacePackage f"
  "Methods (renameAll f) = Methods f"
  "Interface (renameAll f) = Interface f"
  "Name (renameAll f) = Name f"
  by (simp_all add: renameAll_def foldl_renameAt_keeps)

text \<open>The aliases after a round, under distinct paths.\<close>

lemma aliases_renameAll:
  assumes "distinct (map Path (Imports f))" and "i < length (Imports f)"
  shows "Alias (Imports (renameAll f) ! i) =
     (if Alias (Imports f ! i) \<in> set (take i (map Alias (Imports f)))
      then Alias (Imports f ! i) @
        suffixFor (length (aliasGroup (take i (Imports f)) (Alias (Imports f ! i))))
      else Alias (Imports f ! i))"
proof -
  let ?xs = "Imports f"
  have "length (aliasGroup (take i ?xs) (Alias (?xs ! i))) > 0 \<longleftrightarrow>
      Alias (?xs ! i) \<in> set (take i (map Alias ?xs))"
    unfolding aliasGroup_def length_greater_0_conv filter_empty_conv take_map set_map image_iff
    by metis
  then show ?thesis
    using assms(2)
    by (simp add: renameAll_eq_specRound [OF assms(1)] specRound_def Let_def
        specRename_nth [OF assms])
qed

section \<open>The loop ends when the paths are distinct\<close>

lemma slacks_decrease:
  assumes len: "length as' = length as"
    and i0: "i0 < length as"
    and before: "\<And>j. j < i0 \<Longrightarrow> as' ! j = as ! j"
    and dup: "as ! i0 \<in> set (take i0 as)"
    and longer: "length (as' ! i0) > length (as ! i0)"
  shows "(slacks as', slacks as) \<in> lex less_than"
proof -
  have takes: "take j as' = take j as" if "j \<le> i0" for j
    using that len i0 before by (intro nth_take_lemma) auto
  have same: "slack as' j = slack as j" if "j < i0" for j
    using that takes [of j] before [of j] by (simp add: slack_def)
  have "length (as ! i0) \<in> set (map length (take i0 as))"
    using dup by simp
  then have "length (as ! i0) \<le> sum_list (map length (take i0 as))"
    by (rule member_le_sum_list) simp
  then have less: "slack as' i0 < slack as i0"
    using longer takes [of i0] by (simp add: slack_def)
  have split: "[0..<length as] = [0..<i0] @ i0 # [Suc i0..<length as]"
  proof -
    from i0 obtain k where k: "length as = i0 + k" and "0 < k"
      by (metis less_imp_add_positive)
    have "[0..<i0 + k] = [0..<i0] @ [i0..<i0 + k]"
      by (rule upt_add_eq_append) simp
    also have "[i0..<i0 + k] = i0 # [Suc i0..<i0 + k]"
      using \<open>0 < k\<close> by (intro upt_conv_Cons) simp
    finally show ?thesis
      by (simp only: k)
  qed
  have one: "slacks as = map (slack as) [0..<i0] @ slack as i0 # map (slack as) [Suc i0..<length as]"
    by (simp add: slacks_def) (simp only: split map_append list.map)
  have eq: "map (slack as') [0..<i0] = map (slack as) [0..<i0]"
    using same by simp
  have two: "slacks as' = map (slack as) [0..<i0] @ slack as' i0 # map (slack as') [Suc i0..<length as]"
    by (simp only: slacks_def len split map_append list.map eq)
  have lens: "length (slacks as') = length (slacks as)"
    by (simp add: slacks_def len)
  have "(slack as' i0, slack as i0) \<in> less_than"
    using less by simp
  with one two have "\<exists>xys x y xs' ys'. slacks as' = xys @ x # xs' \<and> slacks as = xys @ y # ys' \<and>
      (x, y) \<in> less_than"
    by blast
  with lens show ?thesis
    unfolding lex_conv by blast
qed

lemma first_duplicate:
  assumes "\<not> distinct as"
  obtains i where "i < length as" and "as ! i \<in> set (take i as)"
    and "\<And>j. j < i \<Longrightarrow> as ! j \<notin> set (take j as)"
proof -
  from assms obtain c d where cd: "c < length as" "d < length as" "c \<noteq> d" "as ! c = as ! d"
    unfolding distinct_conv_nth by blast
  define a where "a = min c d"
  define b where "b = max c d"
  from cd have ab: "a < b" "b < length as" "as ! a = as ! b"
    by (auto simp: a_def b_def min_def max_def)
  have "take b as ! a = as ! a" and "a < length (take b as)"
    using ab by simp_all
  then have "as ! a \<in> set (take b as)"
    by (metis nth_mem)
  then have "as ! b \<in> set (take b as)"
    using ab by simp
  with ab have ex: "\<exists>i. i < length as \<and> as ! i \<in> set (take i as)"
    by blast
  define i where "i = (LEAST i. i < length as \<and> as ! i \<in> set (take i as))"
  from LeastI_ex [OF ex] have "i < length as" and "as ! i \<in> set (take i as)"
    by (simp_all add: i_def)
  moreover have "as ! j \<notin> set (take j as)" if "j < i" for j
    using not_less_Least [of j "\<lambda>i. i < length as \<and> as ! i \<in> set (take i as)"] that
      \<open>i < length as\<close> by (auto simp: i_def)
  ultimately show thesis
    by (rule that)
qed

lemma renameAll_decreases:
  assumes paths: "distinct (map Path (Imports f))"
    and dup: "\<not> distinct (map Alias (Imports f))"
  shows "(slacks (map Alias (Imports (renameAll f))), slacks (map Alias (Imports f))) \<in> lex less_than"
proof -
  let ?as = "map Alias (Imports f)"
  let ?as' = "map Alias (Imports (renameAll f))"
  from first_duplicate [OF dup] obtain i where i: "i < length ?as"
    and hit: "?as ! i \<in> set (take i ?as)"
    and least: "\<And>j. j < i \<Longrightarrow> ?as ! j \<notin> set (take j ?as)"
    by blast
  have len: "length ?as' = length ?as"
    by (simp add: renameAll_keeps)
  have before: "?as' ! j = ?as ! j" if "j < i" for j
    using that i least [OF that] by (simp add: renameAll_keeps aliases_renameAll [OF paths])
  have "?as' ! i = ?as ! i @ suffixFor (length (aliasGroup (take i (Imports f)) (Alias (Imports f ! i))))"
    using i hit by (simp add: renameAll_keeps aliases_renameAll [OF paths])
  then have longer: "length (?as' ! i) > length (?as ! i)"
    using suffixFor_not_Nil by simp
  show ?thesis
    by (rule slacks_decrease [OF len i before hit longer])
qed

lemma disambiguate_induct [consumes 1, case_names round]:
  assumes "distinct (map Path (Imports f))"
    and step: "\<And>f. distinct (map Path (Imports f)) \<Longrightarrow>
       (\<not> distinct (map Alias (Imports f)) \<Longrightarrow> P (renameAll f)) \<Longrightarrow> P f"
  shows "P f"
proof -
  have "wf (inv_image (lex less_than) (\<lambda>f. slacks (map Alias (Imports f))))"
    by (intro wf_inv_image wf_lex wf_less_than)
  then have "distinct (map Path (Imports f)) \<longrightarrow> P f"
  proof (induction f rule: wf_induct_rule)
    case (less f)
    show ?case
    proof
      assume paths: "distinct (map Path (Imports f))"
      show "P f"
      proof (rule step [OF paths])
        assume dup: "\<not> distinct (map Alias (Imports f))"
        have "distinct (map Path (Imports (renameAll f)))"
          using paths by (simp add: renameAll_keeps)
        moreover have "(renameAll f, f) \<in> inv_image (lex less_than) (\<lambda>f. slacks (map Alias (Imports f)))"
          using renameAll_decreases [OF paths dup] by simp
        ultimately show "P (renameAll f)"
          using less.IH by blast
      qed
    qed
  qed
  with assms(1) show ?thesis
    by blast
qed

section \<open>Adding imports\<close>

lemma AddImport_present:
  assumes "find (\<lambda>imp. Path imp = unvendor (TrimSpace path)) (Imports f) = Some imp"
  shows "AddImport alias path f = (imp, f)"
  using assms by (simp add: AddImport_def)

lemma AddImport_absent:
  assumes "find (\<lambda>imp. Path imp = unvendor (TrimSpace path)) (Imports f) = None"
  shows "AddImport alias path f =
    (\<lparr>Alias = TrimSpace alias, Path = unvendor (TrimSpace path)\<rparr>,
     f\<lparr>Imports := Imports f @ [\<lparr>Alias = TrimSpace alias, Path = unvendor (TrimSpace path)\<rparr>]\<rparr>)"
  using assms by (simp add: AddImport_def Let_def)

lemma find_path_None: "find (\<lambda>imp. Path imp = p) xs = None \<longleftrightarrow> p \<notin> Path ` set xs"
  by (auto simp: find_None_iff)

lemma find_path_Some:
  "p \<in> Path ` set xs \<Longrightarrow>
     \<exists>imp. find (\<lambda>imp. Path imp = p) xs = Some imp \<and> imp \<in> set xs \<and> Path imp = p"
  by (induction xs) auto

lemma find_append_new:
  "find P xs = None \<Longrightarrow> find P (xs @ [x]) = (if P x then Some x else None)"
  by (induction xs) (auto split: if_splits)

lemma Imports_AddImport:
  "Imports (snd (AddImport alias path f)) =
     (if unvendor (TrimSpace path) \<in> Path ` set (Imports f) then Imports f
      else Imports f @ [\<lparr>Alias = TrimSpace alias, Path = unvendor (TrimSpace path)\<rparr>])"
proof (cases "unvendor (TrimSpace path) \<in> Path ` set (Imports f)")
  case True
  from find_path_Some [OF this] show ?thesis
    using True by (auto simp: AddImport_present)
next
  case False
  then show ?thesis
    by (simp add: AddImport_absent find_path_None)
qed


text \<open>
  C3. \<open>AddImport\<close> looks the path up in its devendorized form, which the code takes of the
  path without the white space around it. When an import with that path is in the list, under
  whatever alias, \<open>AddImport\<close> returns the first such import and leaves the fake as it is.
  When there is none, it appends the new import at the end of the list; adding the same
  devendorized path once more, under any alias, then returns that import and changes nothing,
  so that the list holds exactly one import with that path.
\<close>

theorem AddImport_idempotent_by_path:
  "(unvendor (TrimSpace path) \<in> Path ` set (Imports f) \<longrightarrow>
      snd (AddImport alias path f) = f \<and>
      find (\<lambda>imp. Path imp = unvendor (TrimSpace path)) (Imports f) =
        Some (fst (AddImport alias path f))) \<and>
   (unvendor (TrimSpace path) \<notin> Path ` set (Imports f) \<longrightarrow>
      fst (AddImport alias path f) = \<lparr>Alias = TrimSpace alias, Path = unvendor (TrimSpace path)\<rparr> \<and>
      snd (AddImport alias path f) = f\<lparr>Imports := Imports f @ [fst (AddImport alias path f)]\<rparr> \<and>
      (unvendor (TrimSpace path') = unvendor (TrimSpace path) \<longrightarrow>
         AddImport alias' path' (snd (AddImport alias path f)) =
           (fst (AddImport alias path f), snd (AddImport alias path f)) \<and>
         length (filter (\<lambda>imp. Path imp = unvendor (TrimSpace path))
           (Imports (snd (AddImport alias' path' (snd (AddImport alias path f)))))) = 1))"
proof (intro conjI impI)
  assume present: "unvendor (TrimSpace path) \<in> Path ` set (Imports f)"
  from find_path_Some [OF this] obtain imp
    where imp: "find (\<lambda>imp. Path imp = unvendor (TrimSpace path)) (Imports f) = Some imp"
    by blast
  show "snd (AddImport alias path f) = f"
    by (simp add: AddImport_present [OF imp])
  show "find (\<lambda>imp. Path imp = unvendor (TrimSpace path)) (Imports f) =
      Some (fst (AddImport alias path f))"
    by (simp add: AddImport_present [OF imp] imp)
next
  assume absent: "unvendor (TrimSpace path) \<notin> Path ` set (Imports f)"
  then have none: "find (\<lambda>imp. Path imp = unvendor (TrimSpace path)) (Imports f) = None"
    by (simp add: find_path_None)
  let ?new = "\<lparr>Alias = TrimSpace alias, Path = unvendor (TrimSpace path)\<rparr>"
  let ?f1 = "f\<lparr>Imports := Imports f @ [?new]\<rparr>"
  have first: "AddImport alias path f = (?new, ?f1)"
    by (rule AddImport_absent [OF none])
  show "fst (AddImport alias path f) = ?new"
    by (simp add: first)
  show "snd (AddImport alias path f) = f\<lparr>Imports := Imports f @ [fst (AddImport alias path f)]\<rparr>"
    by (simp add: first)
  {
    assume same: "unvendor (TrimSpace path') = unvendor (TrimSpace path)"
    have "find (\<lambda>imp. Path imp = unvendor (TrimSpace path')) (Imports ?f1) = Some ?new"
      using none by (simp add: same find_append_new)
    then have second: "AddImport alias' path' ?f1 = (?new, ?f1)"
      by (rule AddImport_present)
    show "AddImport alias' path' (snd (AddImport alias path f)) =
           (fst (AddImport alias path f), snd (AddImport alias path f))"
      by (simp add: first second)
    have "filter (\<lambda>imp. Path imp = unvendor (TrimSpace path)) (Imports f) = []"
      using absent by (simp add: filter_empty_conv) (metis imageI)
    then show "length (filter (\<lambda>imp. Path imp = unvendor (TrimSpace path))
           (Imports (snd (AddImport alias' path' (snd (AddImport alias path f)))))) = 1"
      by (simp add: first second)
  }
qed

theorem AddImport_idempotent_by_path_witness:
  "unvendor (TrimSpace ''sync '') \<in> Path ` set (Imports emptyFake) \<and>
   snd (AddImport ''other'' ''sync '' emptyFake) = emptyFake \<and>
   unvendor (TrimSpace '' example.com/a/vendor/example.com/b '') \<notin> Path ` set (Imports emptyFake) \<and>
   unvendor (TrimSpace ''vendor/example.com/b'') =
     unvendor (TrimSpace '' example.com/a/vendor/example.com/b '') \<and>
   fst (AddImport ''b'' '' example.com/a/vendor/example.com/b '' emptyFake) =
     \<lparr>Alias = ''b'', Path = ''example.com/b''\<rparr> \<and>
   AddImport ''c'' ''vendor/example.com/b''
       (snd (AddImport ''b'' '' example.com/a/vendor/example.com/b '' emptyFake)) =
     (fst (AddImport ''b'' '' example.com/a/vendor/example.com/b '' emptyFake),
      snd (AddImport ''b'' '' example.com/a/vendor/example.com/b '' emptyFake))"
proof -
  have present: "unvendor (TrimSpace ''sync '') \<in> Path ` set (Imports emptyFake)"
    by code_simp
  have absent:
    "unvendor (TrimSpace '' example.com/a/vendor/example.com/b '') \<notin> Path ` set (Imports emptyFake)"
    by code_simp
  have same: "unvendor (TrimSpace ''vendor/example.com/b'') =
      unvendor (TrimSpace '' example.com/a/vendor/example.com/b '')"
    by code_simp
  have new: "\<lparr>Alias = TrimSpace ''b'',
      Path = unvendor (TrimSpace '' example.com/a/vendor/example.com/b '')\<rparr> =
      \<lparr>Alias = ''b'', Path = ''example.com/b''\<rparr>"
    by code_simp
  from AddImport_idempotent_by_path [of "''sync ''" emptyFake "''other''" "[]" "[]"] present
  have one: "snd (AddImport ''other'' ''sync '' emptyFake) = emptyFake"
    by blast
  note inst = AddImport_idempotent_by_path
    [of "'' example.com/a/vendor/example.com/b ''" emptyFake "''b''" "''vendor/example.com/b''" "''c''"]
  from inst absent
  have "fst (AddImport ''b'' '' example.com/a/vendor/example.com/b '' emptyFake) =
      \<lparr>Alias = TrimSpace ''b'',
       Path = unvendor (TrimSpace '' example.com/a/vendor/example.com/b '')\<rparr>"
    by blast
  then have two: "fst (AddImport ''b'' '' example.com/a/vendor/example.com/b '' emptyFake) =
      \<lparr>Alias = ''b'', Path = ''example.com/b''\<rparr>"
    by (simp only: new)
  from inst absent same
  have three: "AddImport ''c'' ''vendor/example.com/b''
       (snd (AddImport ''b'' '' example.com/a/vendor/example.com/b '' emptyFake)) =
     (fst (AddImport ''b'' '' example.com/a/vendor/example.com/b '' emptyFake),
      snd (AddImport ''b'' '' example.com/a/vendor/example.com/b '' emptyFake))"
    by blast
  show ?thesis
    by (intro conjI present one absent same two three)
qed

section \<open>The loop and its result\<close>

lemma disambiguateLoop_terminates:
  assumes "distinct (map Path (Imports f))"
  shows "\<exists>f'. disambiguateLoop ranks n f = Some f'"
  using assms
proof (induction f arbitrary: n rule: disambiguate_induct)
  case (round f)
  show ?case
  proof (cases "distinct (map Alias (Imports f))")
    case True
    then show ?thesis
      by (subst disambiguateLoop.simps) (simp add: hasDuplicateAliases_iff)
  next
    case False
    from round(2) [OF False, of "Suc n"] obtain f' where
      "disambiguateLoop ranks (Suc n) (renameAll f) = Some f'"
      by blast
    with False show ?thesis
      by (subst disambiguateLoop.simps) (simp add: hasDuplicateAliases_iff)
  qed
qed

lemma disambiguateLoop_result:
  assumes "disambiguateLoop ranks n f = Some f'"
  shows "distinct (map Alias (Imports f')) \<and>
     map Path (Imports f') = map Path (Imports f) \<and>
     InterfacePackage f' = InterfacePackage f \<and> Methods f' = Methods f \<and>
     Interface f' = Interface f \<and> Name f' = Name f"
proof -
  let ?P = "\<lambda>(ranks :: nat \<Rightarrow> string \<Rightarrow> nat) (n :: nat) f f'.
     distinct (map Alias (Imports f')) \<and>
     map Path (Imports f') = map Path (Imports f) \<and>
     InterfacePackage f' = InterfacePackage f \<and> Methods f' = Methods f \<and>
     Interface f' = Interface f \<and> Name f' = Name f"
  have "?P ranks n f f'"
  proof (rule disambiguateLoop.raw_induct [where P = ?P, OF _ assms])
    fix loop :: "(nat \<Rightarrow> string \<Rightarrow> nat) \<Rightarrow> nat \<Rightarrow> Fake \<Rightarrow> Fake option"
      and ranks n f f'
    assume IH: "\<And>ranks n f f'. loop ranks n f = Some f' \<Longrightarrow> ?P ranks n f f'"
      and eq: "(if \<not> hasDuplicateAliases (ranks n) f then Some f
                else loop ranks (Suc n) (renameAll f)) = Some f'"
    show "?P ranks n f f'"
    proof (cases "hasDuplicateAliases (ranks n) f")
      case False
      with eq show ?thesis
        by (simp add: hasDuplicateAliases_iff)
    next
      case True
      with eq have "loop ranks (Suc n) (renameAll f) = Some f'"
        by simp
      from IH [OF this] show ?thesis
        by (simp add: renameAll_keeps)
    qed
  qed
  then show ?thesis .
qed

lemma disambiguateLoop_ranks:
  assumes "disambiguateLoop ranks n f = Some f'"
  shows "disambiguateLoop ranks' n' f = Some f'"
proof -
  let ?P = "\<lambda>(ranks :: nat \<Rightarrow> string \<Rightarrow> nat) (n :: nat) f f'.
     \<forall>n'. disambiguateLoop ranks' n' f = Some f'"
  have "?P ranks n f f'"
  proof (rule disambiguateLoop.raw_induct [where P = ?P, OF _ assms])
    fix loop :: "(nat \<Rightarrow> string \<Rightarrow> nat) \<Rightarrow> nat \<Rightarrow> Fake \<Rightarrow> Fake option"
      and ranks n f f'
    assume IH: "\<And>ranks n f f'. loop ranks n f = Some f' \<Longrightarrow> ?P ranks n f f'"
      and eq: "(if \<not> hasDuplicateAliases (ranks n) f then Some f
                else loop ranks (Suc n) (renameAll f)) = Some f'"
    show "?P ranks n f f'"
    proof (cases "distinct (map Alias (Imports f))")
      case True
      with eq have "f' = f"
        by (simp add: hasDuplicateAliases_iff)
      with True show ?thesis
        by (subst disambiguateLoop.simps) (simp add: hasDuplicateAliases_iff)
    next
      case False
      with eq have "loop ranks (Suc n) (renameAll f) = Some f'"
        by (simp add: hasDuplicateAliases_iff)
      from IH [OF this] have "\<And>n'. disambiguateLoop ranks' (Suc n') (renameAll f) = Some f'"
        by blast
      with False show ?thesis
        by (subst disambiguateLoop.simps) (simp add: hasDuplicateAliases_iff)
    qed
  qed
  then show ?thesis
    by blast
qed

lemma disambiguateLoop_independent:
  "disambiguateLoop ranks n f = disambiguateLoop ranks' n' f"
proof (cases "disambiguateLoop ranks n f")
  case (Some f')
  then show ?thesis
    by (simp add: disambiguateLoop_ranks [OF Some])
next
  case None
  show ?thesis
  proof (cases "disambiguateLoop ranks' n' f")
    case (Some f')
    from disambiguateLoop_ranks [OF this, of ranks n] None show ?thesis
      by simp
  next
    case None': None
    with None show ?thesis
      by simp
  qed
qed

lemma disambiguateAliases_independent:
  "disambiguateAliases ranks f = disambiguateAliases ranks' f"
  using disambiguateLoop_independent [of ranks 1 "sortImports f" ranks' 1]
  by (simp add: disambiguateAliases_def Let_def hasDuplicateAliases_iff)

section \<open>The disambiguation pass\<close>

lemma disambiguateAliases_result:
  assumes "disambiguateAliases ranks f = Some f'"
  shows "distinct (map Alias (Imports f')) \<and>
     map Path (Imports f') = map Path (sort_key Path (Imports f)) \<and>
     InterfacePackage f' = InterfacePackage f \<and> Methods f' = Methods f \<and>
     Interface f' = Interface f \<and> Name f' = Name f"
proof (cases "hasDuplicateAliases (ranks 0) (sortImports f)")
  case False
  with assms have "f' = sortImports f"
    by (simp add: disambiguateAliases_def Let_def)
  with False show ?thesis
    by (simp add: hasDuplicateAliases_iff sortImports_def)
next
  case True
  with assms have "disambiguateLoop ranks 1 (sortImports f) = Some f'"
    by (simp add: disambiguateAliases_def Let_def)
  from disambiguateLoop_result [OF this] show ?thesis
    by (simp add: sortImports_def)
qed

lemma disambiguateAliases_terminates:
  assumes "distinct (map Path (Imports f))"
  shows "\<exists>f'. disambiguateAliases ranks f = Some f'"
proof -
  have "distinct (map Path (Imports (sortImports f)))"
    using assms by (simp add: sortImports_def distinct_map inj_on_def)
  from disambiguateLoop_terminates [OF this, of ranks 1] show ?thesis
    by (auto simp: disambiguateAliases_def Let_def)
qed

text \<open>
  C1. When \<open>disambiguateAliases\<close> returns, no two imports of the list share an alias, and
  the list is the list it was given, sorted by path, with nothing but aliases changed:
  position by position the paths are those of the sorted list, so the paths are the same
  as before, each as often as before. It returns whenever the paths of the list are
  distinct, which is the invariant of the import list.
\<close>

theorem disambiguateAliases_unique_aliases:
  "(distinct (map Path (Imports f)) \<longrightarrow> (\<exists>f'. disambiguateAliases ranks f = Some f')) \<and>
   (\<forall>f'. disambiguateAliases ranks f = Some f' \<longrightarrow>
      distinct (map Alias (Imports f')) \<and>
      map Path (Imports f') = map Path (sort_key Path (Imports f)) \<and>
      mset (map Path (Imports f')) = mset (map Path (Imports f)))"
proof (intro conjI impI allI)
  assume "distinct (map Path (Imports f))"
  then show "\<exists>f'. disambiguateAliases ranks f = Some f'"
    by (rule disambiguateAliases_terminates)
next
  fix f'
  assume run: "disambiguateAliases ranks f = Some f'"
  from disambiguateAliases_result [OF run]
  show "distinct (map Alias (Imports f'))"
    and paths: "map Path (Imports f') = map Path (sort_key Path (Imports f))"
    by simp_all
  show "mset (map Path (Imports f')) = mset (map Path (Imports f))"
    by (simp only: paths) simp
qed

theorem disambiguateAliases_unique_aliases_witness:
  "distinct (map Path (Imports collidingFake)) \<and>
   disambiguateAliases insertionOrder collidingFake = Some collidingFakeDone \<and>
   \<not> distinct (map Alias (Imports collidingFake)) \<and>
   distinct (map Alias (Imports collidingFakeDone)) \<and>
   map Path (Imports collidingFakeDone) = map Path (sort_key Path (Imports collidingFake)) \<and>
   mset (map Path (Imports collidingFakeDone)) = mset (map Path (Imports collidingFake))"
proof -
  have paths: "distinct (map Path (Imports collidingFake))"
    by code_simp
  have before: "\<not> distinct (map Alias (Imports collidingFake))"
    by code_simp
  have run: "disambiguateAliases insertionOrder collidingFake = Some collidingFakeDone"
    by code_simp
  from disambiguateAliases_unique_aliases [of collidingFake insertionOrder] run
  have "distinct (map Alias (Imports collidingFakeDone)) \<and>
      map Path (Imports collidingFakeDone) = map Path (sort_key Path (Imports collidingFake)) \<and>
      mset (map Path (Imports collidingFakeDone)) = mset (map Path (Imports collidingFake))"
    by blast
  with paths before run show ?thesis
    by blast
qed

text \<open>
  C9. On every import list with distinct paths, whatever the aliases, \<open>disambiguateAliases\<close>
  returns, and the fake it returns has no alias that two imports share: the loop has reached
  a state that a further round leaves as it is. The result is a fake or no result at
  all: an error is not among the values of the function.
\<close>

theorem disambiguateAliases_always_returns:
  assumes "distinct (map Path (Imports f))"
  shows "\<exists>f'. disambiguateAliases ranks f = Some f' \<and>
     \<not> hasDuplicateAliases rank f' \<and> renameAll f' = f'"
proof -
  from disambiguateAliases_terminates [OF assms] obtain f'
    where run: "disambiguateAliases ranks f = Some f'"
    by blast
  from disambiguateAliases_result [OF run]
  have aliases: "distinct (map Alias (Imports f'))"
    and paths: "distinct (map Path (Imports f'))"
    using assms by (simp_all add: distinct_map inj_on_def)
  have same: "specRename (Imports f') imp = imp" if "imp \<in> set (Imports f')" for imp
  proof -
    have "length (aliasGroup (Imports f') (Alias imp)) \<le> 1"
      using aliases by (simp add: distinct_map_filter_le1 aliasGroup_def)
    then show ?thesis
      by (simp add: specRename_def Let_def)
  qed
  then have "map (specRename (Imports f')) (Imports f') = Imports f'"
    by (simp add: map_idI)
  moreover have "find (\<lambda>imp. Path imp = InterfacePackage f' \<and> specRename (Imports f') imp \<noteq> imp)
      (Imports f') = None"
    using same by (simp add: find_None_iff)
  ultimately have "renameAll f' = f'"
    by (simp add: renameAll_eq_specRound [OF paths] specRound_def Let_def)
  with run aliases show ?thesis
    by (simp add: hasDuplicateAliases_iff)
qed

theorem disambiguateAliases_always_returns_witness:
  "distinct (map Path (Imports collidingFake)) \<and>
   hasDuplicateAliases (insertionOrder 0) collidingFake \<and>
   (\<exists>f'. disambiguateAliases insertionOrder collidingFake = Some f' \<and>
      \<not> hasDuplicateAliases (insertionOrder 0) f' \<and> renameAll f' = f')"
proof -
  have paths: "distinct (map Path (Imports collidingFake))"
    by code_simp
  have before: "hasDuplicateAliases (insertionOrder 0) collidingFake"
    by code_simp
  from disambiguateAliases_always_returns [OF paths, of insertionOrder "insertionOrder 0"]
    paths before
  show ?thesis
    by blast
qed

section \<open>The code's pass is the specification's\<close>

lemma aliasCollides_iff:
  assumes "distinct (map Path xs)"
  shows "aliasCollides xs \<longleftrightarrow> \<not> distinct (map Alias xs)"
proof -
  have grp: "remdups (map Path (aliasGroup xs a)) = map Path (aliasGroup xs a)" for a
    using assms by (simp add: aliasGroup_def distinct_map_filter)
  have "aliasCollides xs \<longleftrightarrow> (\<exists>a \<in> set (map Alias xs). length (aliasGroup xs a) > 1)"
    by (simp add: aliasCollides_def list_ex_iff grp del: set_map)
  also have "\<dots> \<longleftrightarrow> (\<exists>a. length (aliasGroup xs a) > 1)"
  proof
    assume "\<exists>a. length (aliasGroup xs a) > 1"
    then obtain a where a: "length (aliasGroup xs a) > 1"
      by blast
    then have "aliasGroup xs a \<noteq> []"
      by auto
    then obtain y where "y \<in> set xs" and "Alias y = a"
      unfolding aliasGroup_def filter_empty_conv by blast
    then have "a \<in> set (map Alias xs)"
      unfolding set_map by (metis imageI)
    with a show "\<exists>a \<in> set (map Alias xs). length (aliasGroup xs a) > 1"
      by blast
  qed blast
  also have "\<dots> \<longleftrightarrow> \<not> distinct (map Alias xs)"
    by (auto simp: distinct_map_filter_le1 aliasGroup_def not_le)
  finally show ?thesis .
qed

lemma disambiguateLoop_eq_specLoop:
  assumes "distinct (map Path (Imports f))"
  shows "disambiguateLoop ranks n f = specLoop f"
  using assms
proof (induction f arbitrary: n rule: disambiguate_induct)
  case (round f)
  show ?case
  proof (cases "distinct (map Alias (Imports f))")
    case True
    then have "disambiguateLoop ranks n f = Some f"
      by (subst disambiguateLoop.simps) (simp add: hasDuplicateAliases_iff)
    moreover have "specLoop f = Some f"
      using True by (subst specLoop.simps) (simp add: aliasCollides_iff [OF round(1)])
    ultimately show ?thesis
      by simp
  next
    case False
    then have "disambiguateLoop ranks n f = disambiguateLoop ranks (Suc n) (renameAll f)"
      by (subst disambiguateLoop.simps) (simp add: hasDuplicateAliases_iff)
    moreover have "specLoop f = specLoop (specRound f)"
      using False by (subst specLoop.simps) (simp add: aliasCollides_iff [OF round(1)])
    ultimately show ?thesis
      using round(2) [OF False, of "Suc n"] by (simp add: renameAll_eq_specRound [OF round(1)])
  qed
qed

lemma suffixFor_letters:
  "list_all (\<lambda>j. suffixFor (Suc j) = [lowercaseLetters ! j]) [0..<26]"
  by code_simp

lemma suffixFor_letter:
  assumes "1 \<le> k" and "k \<le> 26"
  shows "suffixFor k = [lowercaseLetters ! (k - 1)]"
proof -
  from assms have "k - 1 \<in> set [0..<26]"
    by auto
  with suffixFor_letters have "suffixFor (Suc (k - 1)) = [lowercaseLetters ! (k - 1)]"
    unfolding list_all_iff by blast
  with assms show ?thesis
    by simp
qed

section \<open>The pass and its description\<close>

text \<open>
  On an import list with distinct paths \<open>disambiguateAliases\<close> computes what the
  definition written after the specification computes: the list is sorted by path, stably;
  then, as long as an alias is shared by more than one path, in every group of imports with
  the same alias the first keeps its alias and each later member gets \<open>suffixFor\<close> of its
  position appended, and the interface's alias follows when the import of the interface's
  package is renamed. For the twenty-six positions after the first, \<open>suffixFor\<close> is one
  lowercase letter.
\<close>

lemma disambiguateAliases_refines_spec:
  "(distinct (map Path (Imports f)) \<longrightarrow> disambiguateAliases ranks f = specDisambiguate f) \<and>
   (1 \<le> k \<and> k \<le> 26 \<longrightarrow>
      suffixFor k = [lowercaseLetters ! (k - 1)] \<and> appendsLowercase a (a @ suffixFor k))"
proof (intro conjI impI)
  assume paths: "distinct (map Path (Imports f))"
  then have sorted: "distinct (map Path (Imports (sortImports f)))"
    by (simp add: sortImports_def distinct_map inj_on_def)
  have "disambiguateAliases ranks f = disambiguateLoop ranks 1 (sortImports f)"
  proof (cases "distinct (map Alias (Imports (sortImports f)))")
    case True
    then have "disambiguateLoop ranks 1 (sortImports f) = Some (sortImports f)"
      by (subst disambiguateLoop.simps) (simp add: hasDuplicateAliases_iff)
    with True show ?thesis
      by (simp add: disambiguateAliases_def Let_def hasDuplicateAliases_iff)
  next
    case False
    then show ?thesis
      by (simp add: disambiguateAliases_def Let_def hasDuplicateAliases_iff)
  qed
  also have "\<dots> = specLoop (sortImports f)"
    by (rule disambiguateLoop_eq_specLoop [OF sorted])
  finally show "disambiguateAliases ranks f = specDisambiguate f"
    by (simp add: specDisambiguate_def sortImports_def)
next
  assume k: "1 \<le> k \<and> k \<le> 26"
  then show letter: "suffixFor k = [lowercaseLetters ! (k - 1)]"
    by (simp add: suffixFor_letter)
  have "length lowercaseLetters = 26"
    by (simp add: lowercaseLetters_def)
  with k have "k - 1 < length lowercaseLetters"
    by linarith
  then have "lowercaseLetters ! (k - 1) \<in> set lowercaseLetters"
    by (rule nth_mem)
  then show "appendsLowercase a (a @ suffixFor k)"
    unfolding appendsLowercase_def list_ex_iff letter by blast
qed

lemma disambiguateAliases_refines_spec_example:
  "distinct (map Path (Imports collidingFake)) \<and>
   disambiguateAliases insertionOrder collidingFake = specDisambiguate collidingFake \<and>
   specDisambiguate collidingFake = Some collidingFakeDone \<and>
   (1::nat) \<le> 2 \<and> (2::nat) \<le> 26 \<and>
   suffixFor 2 = [lowercaseLetters ! (2 - 1)] \<and>
   appendsLowercase ''thing'' (''thing'' @ suffixFor 2)"
proof -
  have paths: "distinct (map Path (Imports collidingFake))"
    by code_simp
  have spec: "specDisambiguate collidingFake = Some collidingFakeDone"
    by code_simp
  have k: "(1::nat) \<le> 2 \<and> (2::nat) \<le> 26"
    by simp
  from disambiguateAliases_refines_spec [of collidingFake insertionOrder 2 "''thing''"] paths k
  have "disambiguateAliases insertionOrder collidingFake = specDisambiguate collidingFake \<and>
      suffixFor 2 = [lowercaseLetters ! (2 - 1)] \<and>
      appendsLowercase ''thing'' (''thing'' @ suffixFor 2)"
    by blast
  with paths spec k show ?thesis
    by blast
qed

text \<open>
  C2. The pass sorts the imports by path and then, in every group of imports that share an
  alias, keeps the alias of the first and appends one lowercase letter to the alias of each
  later member. This fails on twenty-eight imports with distinct paths and the same alias
  \<open>v1\<close>: the suffix of the member at position 27 is an opening brace, and the import that
  is last in the order of the paths leaves the pass with the alias \<open>v1{\<close>, which is not
  its alias with a lowercase letter appended.
\<close>

theorem disambiguateAliases_suffix_past_z:
  "distinct (map Path (Imports manyFake)) \<and>
   length (Imports manyFake) = 28 \<and>
   list_all (\<lambda>i. Alias i = ''v1'') (Imports manyFake) \<and>
   Alias (Imports (sortImports manyFake) ! 27) = ''v1'' \<and>
   suffixFor 27 = ''{'' \<and>
   map_option (\<lambda>f'. (Alias (Imports f' ! 27), appendsLowercase ''v1'' (Alias (Imports f' ! 27))))
     (disambiguateAliases insertionOrder manyFake) = Some (''v1{'', False)"
  by code_simp

section \<open>Generation\<close>

lemma Imports_addImportsFor:
  "\<exists>new. Imports (addImportsFor t f) = Imports f @ new"
proof (induction t arbitrary: f)
  case (Map k v)
  from Map.IH(1) [of f] obtain new1 where "Imports (addImportsFor k f) = Imports f @ new1"
    by blast
  moreover from Map.IH(2) [of "addImportsFor k f"] obtain new2
    where "Imports (addImportsFor v (addImportsFor k f)) = Imports (addImportsFor k f) @ new2"
    by blast
  ultimately show ?case
    by simp
next
  case (Named obj)
  show ?case
    by (simp add: Imports_AddImport split: option.splits)
qed simp_all

lemma Imports_foldl_addImportsFor:
  "\<exists>new. Imports (foldl (\<lambda>f v. addImportsFor (VarType v) f) f vs) = Imports f @ new"
proof (induction vs arbitrary: f)
  case Nil
  then show ?case by simp
next
  case (Cons v vs)
  from Imports_addImportsFor [of "VarType v" f] obtain new1
    where "Imports (addImportsFor (VarType v) f) = Imports f @ new1"
    by blast
  moreover from Cons.IH [of "addImportsFor (VarType v) f"] obtain new2
    where "Imports (foldl (\<lambda>f v. addImportsFor (VarType v) f) (addImportsFor (VarType v) f) vs) =
      Imports (addImportsFor (VarType v) f) @ new2"
    by blast
  ultimately show ?case
    by simp
qed

lemma Imports_addImportsForMethod:
  "\<exists>new. Imports (addImportsForMethod f m) = Imports f @ new"
proof -
  let ?f1 = "foldl (\<lambda>f v. addImportsFor (VarType v) f) f (SigResults (FuncSig m))"
  from Imports_foldl_addImportsFor [of f "SigResults (FuncSig m)"] obtain new1
    where "Imports ?f1 = Imports f @ new1"
    by blast
  moreover from Imports_foldl_addImportsFor [of ?f1 "SigParams (FuncSig m)"] obtain new2
    where "Imports (foldl (\<lambda>f v. addImportsFor (VarType v) f) ?f1 (SigParams (FuncSig m))) =
      Imports ?f1 @ new2"
    by blast
  ultimately show ?thesis
    by (simp add: addImportsForMethod_def Let_def)
qed

lemma Imports_foldl_addImportsForMethod:
  "\<exists>new. Imports (foldl addImportsForMethod f ms) = Imports f @ new"
proof (induction ms arbitrary: f)
  case Nil
  then show ?case by simp
next
  case (Cons m ms)
  from Imports_addImportsForMethod [of f m] obtain new1
    where "Imports (addImportsForMethod f m) = Imports f @ new1"
    by blast
  moreover from Cons.IH [of "addImportsForMethod f m"] obtain new2
    where "Imports (foldl addImportsForMethod (addImportsForMethod f m) ms) =
      Imports (addImportsForMethod f m) @ new2"
    by blast
  ultimately show ?case
    by simp
qed

lemma buildMethods_Imports:
  "buildMethods impMap ms f = Inr f' \<Longrightarrow> Imports f' = Imports f"
proof (induction ms arbitrary: f)
  case Nil
  then show ?case by simp
next
  case (Cons m ms)
  from Cons.prems obtain params where
    "buildMethods impMap ms
       (f\<lparr>Methods := Methods f @
          [\<lparr>FakeName = Name f, MethodName = FuncName m, Params = params, Args = [],
            Returns = buildReturns impMap (FuncSig m) [0..<length (SigResults (FuncSig m))] [],
            Rets = []\<rparr>]\<rparr>) = Inr f'"
    by (auto simp: Let_def split: sum.splits)
  from Cons.IH [OF this] show ?case
    by simp
qed


lemma prepare_paths:
  assumes "prepare ranks f = Some (Inr f')"
  shows "Path ` set (Imports f) \<subseteq> Path ` set (Imports f')"
proof -
  from assms obtain iface where iface: "Interface f = Some iface"
    by (auto simp: prepare_def split: option.splits)
  let ?f1 = "foldl addImportsForMethod f (IfaceMethods iface)"
  from assms iface obtain impMap f2 where
    im: "importsMap ranks ?f1 = Some (impMap, f2)"
    and bm: "buildMethods impMap (IfaceMethods iface) f2 = Inr f'"
    by (auto simp: prepare_def Let_def split: option.splits)
  from im have "disambiguateAliases ranks ?f1 = Some f2"
    by (auto simp: importsMap_def split: option.splits)
  from disambiguateAliases_result [OF this]
  have "set (map Path (Imports f2)) = set (map Path (Imports ?f1))"
    by simp
  moreover from Imports_foldl_addImportsForMethod [of f "IfaceMethods iface"]
  have "set (map Path (Imports f)) \<subseteq> set (map Path (Imports ?f1))"
    by auto
  moreover have "Imports f' = Imports f2"
    by (rule buildMethods_Imports [OF bm])
  ultimately show ?thesis
    by simp
qed

text \<open>
  C8. What a run of \<open>Generate\<close> does not take from its inputs is the order in which each
  \<open>range\<close> over the alias map visits the aliases. The outcome of the run, which is the
  text, the failure or the absence of any return, is the same for any two choices of these
  orders. The template engine and the formatter are functions of what they are given.
\<close>

theorem Generate_deterministic:
  "Generate execute process ranks runImports f = Generate execute process ranks' runImports f"
proof -
  have "importsMap ranks g = importsMap ranks' g" for g
    by (simp add: importsMap_def disambiguateAliases_independent [of ranks g ranks'])
  then have eq: "importsMap ranks = importsMap ranks'"
    by (rule ext)
  have "prepare ranks f = prepare ranks' f"
    unfolding prepare_def eq by (rule refl)
  then show ?thesis
    by (simp add: Generate_def)
qed

text \<open>
  C10. A fake that \<open>NewFake\<close> returns has the import with alias and path \<open>sync\<close> at the
  head of its import list: the list starts as this one import, and adding the import of the
  interface's package appends to it or leaves it as it is. The preparation of the template's
  input then keeps the path \<open>sync\<close> in the list, whatever the interface refers to.
\<close>

theorem NewFake_imports_sync:
  assumes "NewFake load interfaceName packagePath fakeName destinationPackage = Inr f"
  shows "hd (Imports f) = \<lparr>Alias = ''sync'', Path = ''sync''\<rparr> \<and>
     \<lparr>Alias = ''sync'', Path = ''sync''\<rparr> \<in> set (Imports f) \<and>
     (\<forall>ranks f'. prepare ranks f = Some (Inr f') \<longrightarrow> ''sync'' \<in> Path ` set (Imports f'))"
proof -
  let ?sync = "\<lparr>Alias = ''sync'', Path = ''sync''\<rparr>"
  from assms have "\<exists>new. Imports f = ?sync # new"
    by (auto simp: NewFake_def loadPackages_def findPackageWithInterface_def Let_def
        Imports_AddImport split: sum.splits prod.splits option.splits)
  then obtain new where head: "Imports f = ?sync # new"
    by blast
  then have "''sync'' \<in> Path ` set (Imports f)"
    by (simp add: image_iff)
  then have "\<forall>ranks f'. prepare ranks f = Some (Inr f') \<longrightarrow> ''sync'' \<in> Path ` set (Imports f')"
    using prepare_paths by blast
  with head show ?thesis
    by simp
qed

theorem NewFake_imports_sync_witness:
  "NewFake exampleLoad ''Doer'' ''example.com/doer'' ''FakeDoer'' ''fakes'' = Inr doFake \<and>
   hd (Imports doFake) = \<lparr>Alias = ''sync'', Path = ''sync''\<rparr> \<and>
   \<lparr>Alias = ''sync'', Path = ''sync''\<rparr> \<in> set (Imports doFake) \<and>
   prepare insertionOrder doFake = Some (Inr doFakeDone) \<and>
   ''sync'' \<in> Path ` set (Imports doFakeDone)"
proof -
  have new: "NewFake exampleLoad ''Doer'' ''example.com/doer'' ''FakeDoer'' ''fakes'' = Inr doFake"
    by code_simp
  have run: "prepare insertionOrder doFake = Some (Inr doFakeDone)"
    by code_simp
  from NewFake_imports_sync [OF new] run
  have "hd (Imports doFake) = \<lparr>Alias = ''sync'', Path = ''sync''\<rparr> \<and>
      \<lparr>Alias = ''sync'', Path = ''sync''\<rparr> \<in> set (Imports doFake) \<and>
      ''sync'' \<in> Path ` set (Imports doFakeDone)"
    by blast
  with new run show ?thesis
    by blast
qed

section \<open>Decimal digits\<close>

lemma decimalValue_snoc:
  "decimalValue (s @ [c]) = 10 * decimalValue s + (of_char c - 48)"
  by (simp add: decimalValue_def)

lemma digit_char:
  assumes "d < 10"
  shows "of_char (char_of (48 + d :: nat)) = (48 + d :: nat)"
  using assms by simp

lemma showNat_decimal:
  "showNat n \<noteq> [] \<and> list_all isDigit (showNat n) \<and> decimalValue (showNat n) = n \<and>
   (n \<noteq> 0 \<longrightarrow> hd (showNat n) \<noteq> CHR ''0'')"
proof (induction n rule: showNat.induct)
  case (1 n)
  show ?case
  proof (cases "n < 10")
    case True
    then have one: "showNat n = [char_of (48 + n)]"
      by (subst showNat.simps) simp
    have zero: "of_char (CHR ''0'') = (48 :: nat)"
      by simp
    have "n \<noteq> 0 \<Longrightarrow> char_of (48 + n) \<noteq> CHR ''0''"
    proof
      assume "n \<noteq> 0" and "char_of (48 + n) = CHR ''0''"
      then have "(of_char (char_of (48 + n)) :: nat) = of_char (CHR ''0'')"
        by simp
      with True \<open>n \<noteq> 0\<close> show False
        by (simp only: digit_char [OF True] zero)
    qed
    with True show ?thesis
      by (simp add: one isDigit_def decimalValue_def)
  next
    case False
    then have more: "showNat n = showNat (n div 10) @ [char_of (48 + n mod 10)]"
      by (subst showNat.simps) simp
    from False have "n div 10 \<noteq> 0"
      by simp
    with "1.IH" [OF False] have IH: "showNat (n div 10) \<noteq> []"
      "list_all isDigit (showNat (n div 10))"
      "decimalValue (showNat (n div 10)) = n div 10"
      "hd (showNat (n div 10)) \<noteq> CHR ''0''"
      by simp_all
    have d: "(of_char (char_of (48 + n mod 10)) :: nat) = 48 + n mod 10"
      by (rule digit_char) simp
    have "n mod 10 \<le> 9"
      by simp
    then have digit: "isDigit (char_of (48 + n mod 10))"
      unfolding isDigit_def d by simp
    show ?thesis
      using IH digit by (simp add: more decimalValue_snoc d)
  qed
qed

lemma showInt_decimal:
  assumes "0 \<le> n"
  shows "showInt n \<noteq> [] \<and> list_all isDigit (showInt n) \<and> decimalValue (showInt n) = nat n \<and>
     (0 < n \<longrightarrow> hd (showInt n) \<noteq> CHR ''0'')"
  using assms showNat_decimal [of "nat n"] by (simp add: showInt_def)

section \<open>Rendering\<close>

lemma find_append:
  "find P (xs @ ys) = (case find P xs of None \<Rightarrow> find P ys | Some x \<Rightarrow> Some x)"
  by (induction xs) auto

lemma importsMap_fold_lookup:
  fixes F :: "(string \<Rightarrow> Import option) \<Rightarrow> Import \<Rightarrow> string \<Rightarrow> Import option"
  defines "F \<equiv> \<lambda>result imp. result(Path imp \<mapsto> imp)"
  shows "foldl F m xs p =
     (case find (\<lambda>imp. Path imp = p) (rev xs) of None \<Rightarrow> m p | Some imp \<Rightarrow> Some imp)"
proof (induction xs rule: rev_induct)
  case Nil
  then show ?case by simp
next
  case (snoc x xs)
  have "foldl F m (xs @ [x]) p = F (foldl F m xs) x p"
    by simp
  also have "\<dots> = (if p = Path x then Some x else foldl F m xs p)"
    by (simp add: F_def)
  finally show ?case
    by (simp add: snoc.IH)
qed

lemma importsMap_lookup:
  assumes "importsMap ranks f = Some (impMap, f')"
  shows "impMap p = find (\<lambda>imp. Path imp = p) (rev (Imports f'))"
  using assms
  by (auto simp: importsMap_def importsMap_fold_lookup split: option.splits)

text \<open>
  C6. \<open>typeFor\<close> renders a type by recursion on its shape: a pointer, a slice, an array
  with its length, a map and a channel with the marker of its direction are rendered around
  the renderings of their parts, a basic type and a named type without a package by their
  names. The length of an array stands between the brackets in decimal: as digits that
  denote the length, without a zero in front. A named type with a package is looked up, by the devendorized
  path of the package, in the map that \<open>importsMap\<close> builds from the disambiguated import
  list: when the list has an import with that path (the last one, should it have several)
  the type is rendered as the alias of that import, a dot and the name, and when the list
  has none, as the bare name. An empty path counts as not registered.
\<close>

theorem typeFor_by_shape:
  "typeFor (Pointer t) impMap = ''*'' @ typeFor t impMap \<and>
   typeFor (Slice t) impMap = ''[]'' @ typeFor t impMap \<and>
   typeFor (Array n t) impMap = ''['' @ showInt n @ '']'' @ typeFor t impMap \<and>
   (0 \<le> n \<longrightarrow>
      showInt n \<noteq> [] \<and> list_all isDigit (showInt n) \<and> decimalValue (showInt n) = nat n \<and>
      (0 < n \<longrightarrow> hd (showInt n) \<noteq> CHR ''0'')) \<and>
   typeFor (Map k v) impMap = ''map['' @ typeFor k impMap @ '']'' @ typeFor v impMap \<and>
   typeFor (Chan SendRecv t) impMap = ''chan '' @ typeFor t impMap \<and>
   typeFor (Chan SendOnly t) impMap = ''chan<- '' @ typeFor t impMap \<and>
   typeFor (Chan RecvOnly t) impMap = ''<-chan '' @ typeFor t impMap \<and>
   typeFor (Basic name) impMap = name \<and>
   typeFor (Named (Some \<lparr>ObjName = name, ObjPkg = None\<rparr>)) impMap = name \<and>
   (importsMap ranks f = Some (byPath, f') \<longrightarrow>
      (find (\<lambda>imp. Path imp = unvendor (PkgPath pkg)) (rev (Imports f')) = Some imp \<and>
       unvendor (PkgPath pkg) \<noteq> [] \<longrightarrow>
         typeFor (Named (Some \<lparr>ObjName = name, ObjPkg = Some pkg\<rparr>)) byPath =
           Alias imp @ ''.'' @ name) \<and>
      (unvendor (PkgPath pkg) \<notin> Path ` set (Imports f') \<longrightarrow>
         typeFor (Named (Some \<lparr>ObjName = name, ObjPkg = Some pkg\<rparr>)) byPath = name))"
proof -
  have named: "typeFor (Named (Some \<lparr>ObjName = name, ObjPkg = Some pkg\<rparr>)) byPath =
      Alias imp @ ''.'' @ name"
    if "importsMap ranks f = Some (byPath, f')"
      and "find (\<lambda>imp. Path imp = unvendor (PkgPath pkg)) (rev (Imports f')) = Some imp"
      and "unvendor (PkgPath pkg) \<noteq> []"
  proof -
    from find_SomeD [OF that(2)] have "Path imp = unvendor (PkgPath pkg)"
      by simp
    with that show ?thesis
      by (simp add: importsMap_lookup [OF that(1)] lookupImport_def Let_def)
  qed
  have bare: "typeFor (Named (Some \<lparr>ObjName = name, ObjPkg = Some pkg\<rparr>)) byPath = name"
    if "importsMap ranks f = Some (byPath, f')"
      and "unvendor (PkgPath pkg) \<notin> Path ` set (Imports f')"
  proof -
    from that(2) have "find (\<lambda>imp. Path imp = unvendor (PkgPath pkg)) (rev (Imports f')) = None"
      by (simp add: find_path_None)
    then show ?thesis
      by (simp add: importsMap_lookup [OF that(1)] lookupImport_def Let_def)
  qed
  show ?thesis
    using named bare showInt_decimal [of n] by simp
qed

theorem typeFor_by_shape_witness:
  "(0::int) \<le> 16 \<and> showInt 16 = ''16'' \<and> decimalValue (showInt 16) = nat 16 \<and>
   typeFor (Array 16 (Map (Basic ''string'') (Pointer (Chan RecvOnly (Slice (Basic ''byte''))))))
     (fst (the (importsMap insertionOrder collidingFake))) = ''[16]map[string]*<-chan []byte'' \<and>
   importsMap insertionOrder collidingFake =
     Some (fst (the (importsMap insertionOrder collidingFake)), collidingFakeDone) \<and>
   find (\<lambda>imp. Path imp = unvendor (PkgPath \<lparr>PkgName = ''thing'', PkgPath = ''example.com/x/vendor/example.com/b/thing''\<rparr>))
     (rev (Imports collidingFakeDone)) = Some \<lparr>Alias = ''thinga'', Path = ''example.com/b/thing''\<rparr> \<and>
   unvendor (PkgPath \<lparr>PkgName = ''thing'', PkgPath = ''example.com/x/vendor/example.com/b/thing''\<rparr>) \<noteq> [] \<and>
   typeFor (Named (Some \<lparr>ObjName = ''Thing'',
       ObjPkg = Some \<lparr>PkgName = ''thing'', PkgPath = ''example.com/x/vendor/example.com/b/thing''\<rparr>\<rparr>))
     (fst (the (importsMap insertionOrder collidingFake))) = ''thinga.Thing'' \<and>
   unvendor (PkgPath \<lparr>PkgName = ''io'', PkgPath = ''io''\<rparr>) \<notin> Path ` set (Imports collidingFakeDone) \<and>
   typeFor (Named (Some \<lparr>ObjName = ''Reader'', ObjPkg = Some \<lparr>PkgName = ''io'', PkgPath = ''io''\<rparr>\<rparr>))
     (fst (the (importsMap insertionOrder collidingFake))) = ''Reader''"
proof -
  let ?m = "fst (the (importsMap insertionOrder collidingFake))"
  let ?thing = "\<lparr>PkgName = ''thing'', PkgPath = ''example.com/x/vendor/example.com/b/thing''\<rparr>"
  let ?io = "\<lparr>PkgName = ''io'', PkgPath = ''io''\<rparr>"
  have "disambiguateAliases insertionOrder collidingFake = Some collidingFakeDone"
    by code_simp
  then have run: "importsMap insertionOrder collidingFake = Some (?m, collidingFakeDone)"
    by (simp add: importsMap_def)
  have found: "find (\<lambda>imp. Path imp = unvendor (PkgPath ?thing)) (rev (Imports collidingFakeDone)) =
      Some \<lparr>Alias = ''thinga'', Path = ''example.com/b/thing''\<rparr>"
    by code_simp
  have nonempty: "unvendor (PkgPath ?thing) \<noteq> []"
    by code_simp
  have absent: "unvendor (PkgPath ?io) \<notin> Path ` set (Imports collidingFakeDone)"
    by code_simp
  from typeFor_by_shape [where t = NilType and impMap = Map.empty and n = 16 and k = NilType
      and v = NilType and ranks = insertionOrder and f = collidingFake and byPath = ?m
      and f' = collidingFakeDone and pkg = ?thing
      and imp = "\<lparr>Alias = ''thinga'', Path = ''example.com/b/thing''\<rparr>" and name = "''Thing''"]
    run found nonempty
  have one: "typeFor (Named (Some \<lparr>ObjName = ''Thing'', ObjPkg = Some ?thing\<rparr>)) ?m =
      Alias \<lparr>Alias = ''thinga'', Path = ''example.com/b/thing''\<rparr> @ ''.'' @ ''Thing''"
    by blast
  from typeFor_by_shape [where t = NilType and impMap = Map.empty and n = 0 and k = NilType
      and v = NilType and ranks = insertionOrder and f = collidingFake and byPath = ?m
      and f' = collidingFakeDone and pkg = ?io
      and imp = "\<lparr>Alias = [], Path = []\<rparr>" and name = "''Reader''"]
    run absent
  have two: "typeFor (Named (Some \<lparr>ObjName = ''Reader'', ObjPkg = Some ?io\<rparr>)) ?m = ''Reader''"
    by blast
  from one have one': "typeFor (Named (Some \<lparr>ObjName = ''Thing'', ObjPkg = Some ?thing\<rparr>)) ?m =
      ''thinga.Thing''"
    by simp
  have len: "(0::int) \<le> 16"
    by simp
  have digits: "showInt 16 = ''16''"
    by code_simp
  from typeFor_by_shape [where t = NilType and impMap = Map.empty and n = 16 and k = NilType
      and v = NilType and ranks = insertionOrder and f = collidingFake and byPath = ?m
      and f' = collidingFakeDone and pkg = ?thing
      and imp = "\<lparr>Alias = ''thinga'', Path = ''example.com/b/thing''\<rparr>" and name = "''Thing''"]
    len
  have val: "decimalValue (showInt 16) = nat 16"
    by blast
  have array: "typeFor (Array 16 (Map (Basic ''string'') (Pointer (Chan RecvOnly (Slice (Basic ''byte'')))))) ?m =
      ''[16]map[string]*<-chan []byte''"
    by (simp add: digits)
  show ?thesis
    by (intro conjI len digits val array run found nonempty one' absent two)
qed

section \<open>Building parameters and results\<close>

lemma buildParams_acc:
  assumes "buildParams impMap sig is acc = Inr params"
  shows "params = acc @ map (\<lambda>i.
      \<lparr>ParamName = ''arg'' @ showNat (i + 1),
       ParamType =
         (if int i = int (length (SigParams sig)) - 1 \<and> SigVariadic sig
          then ''...'' @ drop 2 (typeFor (VarType (SigParams sig ! i)) impMap)
          else typeFor (VarType (SigParams sig ! i)) impMap),
       IsVariadic = (int i = int (length (SigParams sig)) - 1 \<and> SigVariadic sig),
       IsSlice = HasPrefix
         (if int i = int (length (SigParams sig)) - 1 \<and> SigVariadic sig
          then ''...'' @ drop 2 (typeFor (VarType (SigParams sig ! i)) impMap)
          else typeFor (VarType (SigParams sig ! i)) impMap) ''[]''\<rparr>) is"
  using assms
proof (induction "is" arbitrary: acc)
  case Nil
  then show ?case by simp
next
  case (Cons i rest)
  from Cons.prems show ?case
    by (auto simp: Let_def split: if_splits dest!: Cons.IH)
qed

lemma buildReturns_acc:
  "buildReturns impMap sig is acc = acc @ map (\<lambda>i.
      \<lparr>ReturnName = ''result'' @ showNat (i + 1),
       ReturnType = typeFor (VarType (SigResults sig ! i)) impMap\<rparr>) is"
  by (induction "is" arbitrary: acc) (simp_all add: Let_def)


lemma buildMethods_acc:
  assumes "buildMethods impMap ms f = Inr f'"
  shows "\<exists>new. Methods f' = Methods f @ new \<and> length new = length ms \<and>
     (\<forall>k < length ms.
        FakeName (new ! k) = Name f \<and> MethodName (new ! k) = FuncName (ms ! k) \<and>
        buildParams impMap (FuncSig (ms ! k)) [0..<length (SigParams (FuncSig (ms ! k)))] [] =
          Inr (Params (new ! k)) \<and>
        Returns (new ! k) =
          buildReturns impMap (FuncSig (ms ! k)) [0..<length (SigResults (FuncSig (ms ! k)))] [])"
  using assms
proof (induction ms arbitrary: f)
  case Nil
  then show ?case by simp
next
  case (Cons m ms)
  let ?sig = "FuncSig m"
  from Cons.prems obtain params where
    params: "buildParams impMap ?sig [0..<length (SigParams ?sig)] [] = Inr params"
    by (auto simp: Let_def split: sum.splits)
  let ?meth = "\<lparr>FakeName = Name f, MethodName = FuncName m, Params = params, Args = [],
      Returns = buildReturns impMap ?sig [0..<length (SigResults ?sig)] [], Rets = []\<rparr>"
  let ?f1 = "f\<lparr>Methods := Methods f @ [?meth]\<rparr>"
  from Cons.prems params have "buildMethods impMap ms ?f1 = Inr f'"
    by (simp add: Let_def)
  from Cons.IH [OF this] obtain new where new: "Methods f' = Methods ?f1 @ new"
    "length new = length ms"
    "\<forall>k < length ms.
        FakeName (new ! k) = Name ?f1 \<and> MethodName (new ! k) = FuncName (ms ! k) \<and>
        buildParams impMap (FuncSig (ms ! k)) [0..<length (SigParams (FuncSig (ms ! k)))] [] =
          Inr (Params (new ! k)) \<and>
        Returns (new ! k) =
          buildReturns impMap (FuncSig (ms ! k)) [0..<length (SigResults (FuncSig (ms ! k)))] []"
    by blast
  show ?case
  proof (intro exI [of _ "?meth # new"] conjI allI impI)
    show "Methods f' = Methods f @ ?meth # new"
      using new(1) by simp
    show "length (?meth # new) = length (m # ms)"
      using new(2) by simp
  next
    fix k
    assume "k < length (m # ms)"
    then show "FakeName ((?meth # new) ! k) = Name f"
      and "MethodName ((?meth # new) ! k) = FuncName ((m # ms) ! k)"
      and "buildParams impMap (FuncSig ((m # ms) ! k))
          [0..<length (SigParams (FuncSig ((m # ms) ! k)))] [] = Inr (Params ((?meth # new) ! k))"
      and "Returns ((?meth # new) ! k) =
          buildReturns impMap (FuncSig ((m # ms) ! k))
            [0..<length (SigResults (FuncSig ((m # ms) ! k)))] []"
      using new(3) params by (cases k; simp)+
  qed
qed

lemma addImportsFor_keeps:
  "Methods (addImportsFor t f) = Methods f \<and> Name (addImportsFor t f) = Name f \<and>
   Interface (addImportsFor t f) = Interface f"
proof (induction t arbitrary: f)
  case (Named obj)
  show ?case
    by (auto simp: AddImport_def Let_def split: option.splits)
qed simp_all

lemma foldl_addImportsFor_keeps:
  "Methods (foldl (\<lambda>f v. addImportsFor (VarType v) f) f vs) = Methods f \<and>
   Name (foldl (\<lambda>f v. addImportsFor (VarType v) f) f vs) = Name f \<and>
   Interface (foldl (\<lambda>f v. addImportsFor (VarType v) f) f vs) = Interface f"
  by (induction vs arbitrary: f) (simp_all add: addImportsFor_keeps)

lemma addImportsForMethod_keeps:
  "Methods (addImportsForMethod f m) = Methods f \<and> Name (addImportsForMethod f m) = Name f \<and>
   Interface (addImportsForMethod f m) = Interface f"
  by (simp add: addImportsForMethod_def Let_def foldl_addImportsFor_keeps)

lemma foldl_addImportsForMethod_keeps:
  "Methods (foldl addImportsForMethod f ms) = Methods f \<and>
   Name (foldl addImportsForMethod f ms) = Name f \<and>
   Interface (foldl addImportsForMethod f ms) = Interface f"
  by (induction ms arbitrary: f) (simp_all add: addImportsForMethod_keeps)

lemma variadic_not_slice: "\<not> HasPrefix (CHR ''.'' # s) ''[]''"
  by (simp add: HasPrefix_def)

text \<open>
  C4, amended. For every method of the interface, the parameters and results that
  \<open>Generate\<close> builds are as many as the signature has and stand in its order; the
  parameter at index \<open>i\<close> is named \<open>arg\<close> and the result at index \<open>j\<close> is named \<open>result\<close>,
  followed by the decimal digits of the index plus one, whatever the names in the
  signature. \<open>IsVariadic\<close> holds of the last parameter of a variadic method and of no
  other. The type text of a parameter is the rendering of its type, in which the two
  bytes of the slice marker are replaced by three dots when the parameter is variadic;
  \<open>IsSlice\<close> holds exactly when this stored type text begins with the slice marker, and so
  it does not hold of the last parameter of a variadic method.
\<close>

theorem prepare_params_positional:
  assumes "prepare ranks f = Some (Inr f')"
    and "Interface f = Some iface"
    and "k < length (IfaceMethods iface)"
  shows "\<exists>impMap g.
     importsMap ranks (foldl addImportsForMethod f (IfaceMethods iface)) = Some (impMap, g) \<and>
     (let sig = FuncSig (IfaceMethods iface ! k);
          method = Methods f' ! (length (Methods f) + k);
          n = length (SigParams sig)
      in MethodName method = FuncName (IfaceMethods iface ! k) \<and>
         length (Params method) = n \<and>
         length (Returns method) = length (SigResults sig) \<and>
         (\<forall>i < n.
            let p = Params method ! i;
                rendered = typeFor (VarType (SigParams sig ! i)) impMap
            in ParamName p = ''arg'' @ showNat (i + 1) \<and>
               IsVariadic p = (SigVariadic sig \<and> i = n - 1) \<and>
               ParamType p = (if IsVariadic p then ''...'' @ drop 2 rendered else rendered) \<and>
               IsSlice p = HasPrefix (ParamType p) ''[]'' \<and>
               (IsVariadic p \<longrightarrow> \<not> IsSlice p)) \<and>
         (\<forall>j < length (SigResults sig).
            Returns method ! j =
              \<lparr>ReturnName = ''result'' @ showNat (j + 1),
               ReturnType = typeFor (VarType (SigResults sig ! j)) impMap\<rparr>))"
proof -
  let ?ms = "IfaceMethods iface"
  let ?f1 = "foldl addImportsForMethod f ?ms"
  from assms(1,2) obtain impMap g where
    im: "importsMap ranks ?f1 = Some (impMap, g)"
    and bm: "buildMethods impMap ?ms g = Inr f'"
    by (auto simp: prepare_def Let_def split: option.splits)
  from im have "disambiguateAliases ranks ?f1 = Some g"
    by (auto simp: importsMap_def split: option.splits)
  from disambiguateAliases_result [OF this]
  have methods: "Methods g = Methods f"
    by (simp add: foldl_addImportsForMethod_keeps)
  from buildMethods_acc [OF bm] obtain new where new: "Methods f' = Methods g @ new"
    "length new = length ?ms"
    and at: "\<And>k. k < length ?ms \<Longrightarrow>
        MethodName (new ! k) = FuncName (?ms ! k) \<and>
        buildParams impMap (FuncSig (?ms ! k)) [0..<length (SigParams (FuncSig (?ms ! k)))] [] =
          Inr (Params (new ! k)) \<and>
        Returns (new ! k) =
          buildReturns impMap (FuncSig (?ms ! k)) [0..<length (SigResults (FuncSig (?ms ! k)))] []"
    by blast
  let ?sig = "FuncSig (?ms ! k)"
  let ?meth = "Methods f' ! (length (Methods f) + k)"
  let ?n = "length (SigParams ?sig)"
  have meth: "?meth = new ! k"
    by (simp add: new(1) methods)
  from at [OF assms(3)] have name: "MethodName ?meth = FuncName (?ms ! k)"
    and params: "buildParams impMap ?sig [0..<?n] [] = Inr (Params ?meth)"
    and returns: "Returns ?meth = buildReturns impMap ?sig [0..<length (SigResults ?sig)] []"
    by (simp_all add: meth)
  define built where "built = (\<lambda>i.
      \<lparr>ParamName = ''arg'' @ showNat (i + 1),
       ParamType =
         (if int i = int ?n - 1 \<and> SigVariadic ?sig
          then ''...'' @ drop 2 (typeFor (VarType (SigParams ?sig ! i)) impMap)
          else typeFor (VarType (SigParams ?sig ! i)) impMap),
       IsVariadic = (int i = int ?n - 1 \<and> SigVariadic ?sig),
       IsSlice = HasPrefix
         (if int i = int ?n - 1 \<and> SigVariadic ?sig
          then ''...'' @ drop 2 (typeFor (VarType (SigParams ?sig ! i)) impMap)
          else typeFor (VarType (SigParams ?sig ! i)) impMap) ''[]''\<rparr>)"
  have ps: "Params ?meth = map built [0..<?n]"
    unfolding built_def using buildParams_acc [OF params] by simp
  have last: "(int i = int ?n - 1 \<and> SigVariadic ?sig) = (SigVariadic ?sig \<and> i = ?n - 1)"
    if "i < ?n" for i
    using that by auto
  have len1: "length (Params ?meth) = ?n"
    by (simp add: ps)
  have len2: "length (Returns ?meth) = length (SigResults ?sig)"
    by (simp add: returns buildReturns_acc)
  have allp: "\<forall>i < ?n.
      ParamName (Params ?meth ! i) = ''arg'' @ showNat (i + 1) \<and>
      IsVariadic (Params ?meth ! i) = (SigVariadic ?sig \<and> i = ?n - 1) \<and>
      ParamType (Params ?meth ! i) =
        (if IsVariadic (Params ?meth ! i)
         then ''...'' @ drop 2 (typeFor (VarType (SigParams ?sig ! i)) impMap)
         else typeFor (VarType (SigParams ?sig ! i)) impMap) \<and>
      IsSlice (Params ?meth ! i) = HasPrefix (ParamType (Params ?meth ! i)) ''[]'' \<and>
      (IsVariadic (Params ?meth ! i) \<longrightarrow> \<not> IsSlice (Params ?meth ! i))"
  proof (intro allI impI)
    fix i
    assume i: "i < ?n"
    let ?rendered = "typeFor (VarType (SigParams ?sig ! i)) impMap"
    let ?v = "SigVariadic ?sig \<and> i = ?n - 1"
    let ?stored = "if ?v then ''...'' @ drop 2 ?rendered else ?rendered"
    have "Params ?meth ! i = built i"
      using i by (simp add: ps)
    also have "\<dots> =
        \<lparr>ParamName = ''arg'' @ showNat (i + 1), ParamType = ?stored,
         IsVariadic = ?v, IsSlice = HasPrefix ?stored ''[]''\<rparr>"
      by (simp add: built_def last [OF i])
    finally have p: "Params ?meth ! i =
        \<lparr>ParamName = ''arg'' @ showNat (i + 1), ParamType = ?stored,
         IsVariadic = ?v, IsSlice = HasPrefix ?stored ''[]''\<rparr>" .
    show "ParamName (Params ?meth ! i) = ''arg'' @ showNat (i + 1) \<and>
      IsVariadic (Params ?meth ! i) = (SigVariadic ?sig \<and> i = ?n - 1) \<and>
      ParamType (Params ?meth ! i) =
        (if IsVariadic (Params ?meth ! i)
         then ''...'' @ drop 2 (typeFor (VarType (SigParams ?sig ! i)) impMap)
         else typeFor (VarType (SigParams ?sig ! i)) impMap) \<and>
      IsSlice (Params ?meth ! i) = HasPrefix (ParamType (Params ?meth ! i)) ''[]'' \<and>
      (IsVariadic (Params ?meth ! i) \<longrightarrow> \<not> IsSlice (Params ?meth ! i))"
      unfolding p by (simp add: variadic_not_slice)
  qed
  have allr: "\<forall>j < length (SigResults ?sig).
      Returns ?meth ! j =
        \<lparr>ReturnName = ''result'' @ showNat (j + 1),
         ReturnType = typeFor (VarType (SigResults ?sig ! j)) impMap\<rparr>"
    by (simp add: returns buildReturns_acc)
  show ?thesis
    unfolding Let_def using im name len1 len2 allp allr by blast
qed

theorem prepare_params_positional_witness:
  "prepare insertionOrder doFake = Some (Inr doFakeDone) \<and>
   Interface doFake = Some \<lparr>IfaceName = ''Doer'', IfaceMethods = [doMethod]\<rparr> \<and>
   (0::nat) < length (IfaceMethods \<lparr>IfaceName = ''Doer'', IfaceMethods = [doMethod]\<rparr>) \<and>
   length (Params (Methods doFakeDone ! 0)) = 2 \<and>
   ParamName (Params (Methods doFakeDone ! 0) ! 1) = ''arg'' @ showNat 2 \<and>
   IsVariadic (Params (Methods doFakeDone ! 0) ! 1) \<and>
   \<not> IsSlice (Params (Methods doFakeDone ! 0) ! 1) \<and>
   \<not> IsVariadic (Params (Methods doFakeDone ! 0) ! 0) \<and>
   showNat 2 = ''2''"
proof -
  let ?iface = "\<lparr>IfaceName = ''Doer'', IfaceMethods = [doMethod]\<rparr>"
  have run: "prepare insertionOrder doFake = Some (Inr doFakeDone)"
    by code_simp
  have iface: "Interface doFake = Some ?iface"
    by (simp add: doFake_def)
  have k: "(0::nat) < length (IfaceMethods ?iface)"
    by simp
  have n: "length (SigParams (FuncSig (IfaceMethods ?iface ! 0))) = 2"
    and v: "SigVariadic (FuncSig (IfaceMethods ?iface ! 0))"
    and m: "length (Methods doFake) + 0 = 0"
    by (simp_all add: doMethod_def doFake_def)
  have digits: "showNat 2 = ''2''"
    by code_simp
  from prepare_params_positional [OF run iface k]
  have len: "length (Params (Methods doFakeDone ! 0)) = 2"
    and all: "\<forall>i<2. ParamName (Params (Methods doFakeDone ! 0) ! i) = ''arg'' @ showNat (i + 1) \<and>
      IsVariadic (Params (Methods doFakeDone ! 0) ! i) = (i = 1) \<and>
      (IsVariadic (Params (Methods doFakeDone ! 0) ! i) \<longrightarrow>
        \<not> IsSlice (Params (Methods doFakeDone ! 0) ! i))"
    unfolding Let_def n m using v by auto
  from all [rule_format, of 0] all [rule_format, of 1]
  have "ParamName (Params (Methods doFakeDone ! 0) ! 1) = ''arg'' @ showNat 2 \<and>
      IsVariadic (Params (Methods doFakeDone ! 0) ! 1) \<and>
      \<not> IsSlice (Params (Methods doFakeDone ! 0) ! 1) \<and>
      \<not> IsVariadic (Params (Methods doFakeDone ! 0) ! 0)"
    by (simp add: numeral_2_eq_2)
  with run iface k len digits show ?thesis
    by blast
qed

text \<open>
  The claim as it stands fails on the variadic parameter of \<open>Do\<close>: its type is rendered
  with the slice marker in front, and yet the parameter is built with \<open>IsSlice\<close> false.
\<close>

theorem variadic_IsSlice_counterexample:
  "SigVariadic (FuncSig doMethod) \<and>
   typeFor (VarType (SigParams (FuncSig doMethod) ! 1)) Map.empty = ''[]string'' \<and>
   HasPrefix (typeFor (VarType (SigParams (FuncSig doMethod) ! 1)) Map.empty) ''[]'' \<and>
   buildParams Map.empty (FuncSig doMethod) [0..<2] [] =
     Inr [\<lparr>ParamName = ''arg1'', ParamType = [], IsVariadic = False, IsSlice = False\<rparr>,
          \<lparr>ParamName = ''arg2'', ParamType = ''...string'', IsVariadic = True, IsSlice = False\<rparr>] \<and>
   map_option (map_sum id (\<lambda>f'. map IsSlice (Params (Methods f' ! 0)))) (prepare insertionOrder doFake) =
     Some (Inr [False, False])"
  by code_simp

section \<open>Generation goes through\<close>












section \<open>The text before formatting\<close>

text \<open>
  C7. The text that \<open>Generate\<close> returns with formatting disabled is not always complete
  source text. For the interface with the method \<open>Do(interface{}, ...string) error\<close>,
  \<open>NewFake\<close> returns a fake for which \<open>Generate\<close> returns, without an error, what the
  template engine writes for the prepared fake; and the parameter list that the template
  writes into the header of \<open>Do\<close>, which is what \<open>AsNamedArgsWithTypes\<close> returns, names
  the first parameter and gives no type for it.
\<close>

theorem Generate_emits_untyped_parameter:
  "NewFake exampleLoad ''Doer'' ''example.com/doer'' ''FakeDoer'' ''fakes'' = Inr doFake \<and>
   Generate execute process insertionOrder False doFake = Some (Inr (execute doFakeDone)) \<and>
   MethodName (Methods doFakeDone ! 0) = ''Do'' \<and>
   ParamType (Params (Methods doFakeDone ! 0) ! 0) = [] \<and>
   AsNamedArgsWithTypes lowerFirst (Params (Methods doFakeDone ! 0)) = ''arg1 , arg2 ...string''"
proof -
  have new: "NewFake exampleLoad ''Doer'' ''example.com/doer'' ''FakeDoer'' ''fakes'' = Inr doFake"
    by code_simp
  have run: "prepare insertionOrder doFake = Some (Inr doFakeDone)"
    by code_simp
  have gen: "Generate execute process insertionOrder False doFake = Some (Inr (execute doFakeDone))"
    by (simp add: Generate_def run Let_def)
  have params: "Params (Methods doFakeDone ! 0) =
      [\<lparr>ParamName = ''arg1'', ParamType = [], IsVariadic = False, IsSlice = False\<rparr>,
       \<lparr>ParamName = ''arg2'', ParamType = ''...string'', IsVariadic = True, IsSlice = False\<rparr>]"
    and name: "MethodName (Methods doFakeDone ! 0) = ''Do''"
    by (simp_all add: doFakeDone_def)
  have rendered: "AsNamedArgsWithTypes lowerFirst (Params (Methods doFakeDone ! 0)) = ''arg1 , arg2 ...string''"
    unfolding params by (simp add: AsNamedArgsWithTypes_def unexport_def)
  show ?thesis
    using new gen name rendered by (simp add: params)
qed

end
